theory Spec2Isabelle
  imports Complex_Main "HOL-Library.Char_ord" "HOL-Library.List_Lexorder" "HOL-Library.AList"
begin

section \<open>Go library functions the code calls\<close>

text \<open>
  Go strings are byte sequences, here \<^typ>\<open>string\<close>; the comparison \<open>a < b\<close> of two Go
  strings is the bytewise lexicographic order, which is the order of \<^typ>\<open>char list\<close>
  given by the imported library theories.
\<close>

definition isDigit :: "char \<Rightarrow> bool" where
  "isDigit c \<longleftrightarrow> CHR ''0'' \<le> c \<and> c \<le> CHR ''9''"

definition digitVal :: "char \<Rightarrow> int" where
  "digitVal c = int (of_char c) - 48"

definition decimal :: "string \<Rightarrow> int" where
  "decimal ds = foldl (\<lambda>a c. 10 * a + digitVal c) 0 ds"

text \<open>
  \<open>strconv.ParseInt(s, 10, 64)\<close>: an optional sign, then one or more decimal digits and
  nothing else; the value must fit a signed 64-bit integer. \<open>None\<close> stands for a non-nil
  error (syntax or range).
\<close>

definition ParseInt :: "string \<Rightarrow> int option" where
  "ParseInt s =
     (let neg = (s \<noteq> [] \<and> hd s = CHR ''-'');
          body = (if s \<noteq> [] \<and> (hd s = CHR ''+'' \<or> hd s = CHR ''-'') then tl s else s)
      in if body = [] \<or> \<not> list_all isDigit body then None
         else if neg then (if decimal body \<le> 2 ^ 63 then Some (- decimal body) else None)
         else (if decimal body < 2 ^ 63 then Some (decimal body) else None))"

definition HasPrefix :: "string \<Rightarrow> string \<Rightarrow> bool" where
  "HasPrefix s p \<longleftrightarrow> take (length p) s = p"

fun Contains :: "string \<Rightarrow> string \<Rightarrow> bool" where
  "Contains [] sub = (sub = [])"
| "Contains (c # cs) sub = (HasPrefix (c # cs) sub \<or> Contains cs sub)"

text \<open>\<open>strings.Split(s, sep)\<close> for a separator of one byte.\<close>

fun Split :: "string \<Rightarrow> char \<Rightarrow> string list" where
  "Split [] sep = [[]]"
| "Split (c # cs) sep =
     (if c = sep then [] # Split cs sep
      else (case Split cs sep of [] \<Rightarrow> [[c]] | p # ps \<Rightarrow> (c # p) # ps))"

text \<open>
  The white space of \<open>unicode.IsSpace\<close> and of package \<open>fmt\<close>, as UTF-8 byte sequences:
  U+0009 to U+000D, U+0020, U+0085, U+00A0, U+1680, U+2000 to U+200A, U+2028, U+2029,
  U+202F, U+205F and U+3000.
\<close>

definition spaceRunes :: "string list" where
  "spaceRunes =
     [[CHR 0x09], [CHR 0x0A], [CHR 0x0B], [CHR 0x0C], [CHR 0x0D], [CHR 0x20],
      [CHR 0xC2, CHR 0x85], [CHR 0xC2, CHR 0xA0], [CHR 0xE1, CHR 0x9A, CHR 0x80],
      [CHR 0xE2, CHR 0x80, CHR 0x80], [CHR 0xE2, CHR 0x80, CHR 0x81],
      [CHR 0xE2, CHR 0x80, CHR 0x82], [CHR 0xE2, CHR 0x80, CHR 0x83],
      [CHR 0xE2, CHR 0x80, CHR 0x84], [CHR 0xE2, CHR 0x80, CHR 0x85],
      [CHR 0xE2, CHR 0x80, CHR 0x86], [CHR 0xE2, CHR 0x80, CHR 0x87],
      [CHR 0xE2, CHR 0x80, CHR 0x88], [CHR 0xE2, CHR 0x80, CHR 0x89],
      [CHR 0xE2, CHR 0x80, CHR 0x8A], [CHR 0xE2, CHR 0x80, CHR 0xA8],
      [CHR 0xE2, CHR 0x80, CHR 0xA9], [CHR 0xE2, CHR 0x80, CHR 0xAF],
      [CHR 0xE2, CHR 0x81, CHR 0x9F], [CHR 0xE3, CHR 0x80, CHR 0x80]]"

text \<open>The rest of \<open>s\<close> after one leading rune out of \<open>pats\<close>, if \<open>s\<close> starts with one.\<close>

definition dropRune :: "string list \<Rightarrow> string \<Rightarrow> string option" where
  "dropRune pats s =
     (case find (\<lambda>p. p \<noteq> [] \<and> HasPrefix s p) pats of
        None \<Rightarrow> None
      | Some p \<Rightarrow> Some (drop (length p) s))"

function trimLeftWith :: "string list \<Rightarrow> string \<Rightarrow> string" where
  "trimLeftWith pats s = (case dropRune pats s of None \<Rightarrow> s | Some r \<Rightarrow> trimLeftWith pats r)"
  by pat_completeness auto
termination
proof (relation "measure (\<lambda>(pats, s). length s)")
  fix pats :: "string list" and s r :: string
  assume "dropRune pats s = Some r"
  then obtain p where p: "find (\<lambda>p. p \<noteq> [] \<and> HasPrefix s p) pats = Some p"
    and r: "r = drop (length p) s"
    by (auto simp: dropRune_def split: option.splits)
  from p have "p \<noteq> []" and "take (length p) s = p"
    by (auto simp: find_Some_iff HasPrefix_def)
  then have "s \<noteq> []" by auto
  with \<open>p \<noteq> []\<close> r show "((pats, r), (pats, s)) \<in> measure (\<lambda>(pats, s). length s)" by simp
qed simp

declare trimLeftWith.simps [simp del]

text \<open>\<open>strings.TrimSpace\<close>: leading and trailing white space removed.\<close>

definition TrimSpace :: "string \<Rightarrow> string" where
  "TrimSpace s = rev (trimLeftWith (map rev spaceRunes) (rev (trimLeftWith spaceRunes s)))"

text \<open>
  \<open>fmt.Sscanf(s, "%d", &i)\<close> with \<open>i\<close> an \<open>int\<close> of 64 bits: leading white space is skipped,
  where a newline is an error; then an optional sign and one or more decimal digits are
  read and parsed; what follows the digits is not looked at. \<open>None\<close> stands for a non-nil
  error. (The scanner reads at most \<open>2^30\<close> runes; the model is for shorter strings.)
\<close>

function skipSpace :: "string \<Rightarrow> string option" where
  "skipSpace s =
     (if s = [] then Some s
      else if hd s = CHR 0x0A then None
      else (case dropRune spaceRunes s of None \<Rightarrow> Some s | Some r \<Rightarrow> skipSpace r))"
  by pat_completeness auto
termination
proof (relation "measure length")
  fix s r :: string
  assume "dropRune spaceRunes s = Some r"
  then obtain p where p: "find (\<lambda>p. p \<noteq> [] \<and> HasPrefix s p) spaceRunes = Some p"
    and r: "r = drop (length p) s"
    by (auto simp: dropRune_def split: option.splits)
  from p have "p \<noteq> []" and "take (length p) s = p"
    by (auto simp: find_Some_iff HasPrefix_def)
  then have "s \<noteq> []" by auto
  with \<open>p \<noteq> []\<close> r show "(r, s) \<in> measure length" by simp
qed simp

declare skipSpace.simps [simp del]

definition Sscanf_d :: "string \<Rightarrow> int option" where
  "Sscanf_d s =
     (case skipSpace s of
        None \<Rightarrow> None
      | Some r \<Rightarrow>
          (let sgn = (if r \<noteq> [] \<and> (hd r = CHR ''+'' \<or> hd r = CHR ''-'') then [hd r] else []);
               ds = takeWhile isDigit (drop (length sgn) r)
           in if ds = [] then None else ParseInt (sgn @ ds)))"

text \<open>
  \<open>bufio.Scanner\<close> with the default split function \<open>ScanLines\<close>: the text is cut at each
  newline, an unterminated last line counts when it is not empty, and one trailing
  carriage return is dropped from each line. The scanner's buffer holds at most
  \<open>bufio.MaxScanTokenSize = 65536\<close> bytes: at a line of that length or more \<open>Scan\<close> returns
  false with \<open>ErrTooLong\<close>, so the loop over \<open>scanner.Scan()\<close> ends there.
\<close>

fun rawLines :: "string \<Rightarrow> string list" where
  "rawLines [] = []"
| "rawLines (c # cs) =
     (if c = CHR 0x0A then [] # rawLines cs
      else (case rawLines cs of [] \<Rightarrow> [[c]] | l # ls \<Rightarrow> (c # l) # ls))"

definition dropCR :: "string \<Rightarrow> string" where
  "dropCR l = (if l \<noteq> [] \<and> last l = CHR 0x0D then butlast l else l)"

definition MaxScanTokenSize :: nat where
  "MaxScanTokenSize = 65536"

definition scanLines :: "string \<Rightarrow> string list" where
  "scanLines text = map dropCR (takeWhile (\<lambda>l. length l < MaxScanTokenSize) (rawLines text))"

text \<open>
  The pattern \<open>^(\d+).*$\<close> of \<open>numberPrefixRegex\<close> under \<open>FindStringSubmatch\<close>: it matches
  when the string starts with a decimal digit and holds no newline (\<open>.\<close> does not match a
  newline and \<open>$\<close> is the end of the text); the result is then the whole string and the
  longest leading run of digits. No match is the nil slice, here the empty list.
\<close>

definition FindStringSubmatch_numberPrefix :: "string \<Rightarrow> string list" where
  "FindStringSubmatch_numberPrefix s =
     (if s \<noteq> [] \<and> isDigit (hd s) \<and> CHR 0x0A \<notin> set s then [s, takeWhile isDigit s] else [])"


section \<open>Wire values, errors and the run-time environment\<close>

text \<open>
  A value decoded from JSON into \<open>interface{}\<close>: nil, \<open>bool\<close>, \<open>float64\<close>, \<open>string\<close>,
  \<open>[]interface{}\<close> or \<open>map[string]interface{}\<close>. A decoded \<open>float64\<close> is finite, so it is
  a real number. A Go map is an association list read with \<^const>\<open>map_of\<close>.
\<close>

datatype json =
    JNull
  | JBool bool
  | JNumber real
  | JString string
  | JArray "json list"
  | JObject "(string \<times> json) list"

type_synonym gomap = "(string \<times> json) list"

text \<open>The verb \<open>%T\<close>.\<close>

fun typeName :: "json \<Rightarrow> string" where
  "typeName JNull = ''<nil>''"
| "typeName (JBool b) = ''bool''"
| "typeName (JNumber x) = ''float64''"
| "typeName (JString s) = ''string''"
| "typeName (JArray xs) = ''[]interface {}''"
| "typeName (JObject kvs) = ''map[string]interface {}''"

text \<open>
  The errors of the code, one constructor for each \<open>errors.New\<close> and \<open>fmt.Errorf\<close>, with
  the arguments of the format string in their order; \<open>%w\<close> and \<open>%v\<close> of an error is the
  wrapped error. \<open>External\<close> is an error of a collaborator (the transport, a migration
  source, a \<open>sql.Scanner\<close>), \<open>Panic\<close> a run-time panic, which no caller wraps.
\<close>

datatype error =
    RowsClosed
  | ArityMismatch nat nat
  | ScanError nat string error
  | NotStructPointer
  | StructScanError string error
  | DestNotPointer string
  | DestNotSlicePointer string
  | StructScanAllError nat error
  | CannotConvert string string
  | DestinationNotPointer
  | ApiError string
  | ApiErrorUnknown
  | ResultNotArray
  | ResultItemFormat
  | MissingResults
  | RowWidthMismatch nat nat nat
  | RowType nat string
  | NoRows
  | NoDatabaseConnected
  | MigrationParseError string error
  | EnsureTableFailed error
  | GetAppliedFailed error
  | FindMigrationsFailed error
  | ApplyMigrationFailed string error
  | External string
  | Panic string

text \<open>
  What the Go run time decides and the code leaves open: \<open>formatFloat\<close> is the verb \<open>%v\<close>
  on a \<open>float64\<close>; \<open>convertOutOfRange\<close> is the result of the conversions \<open>int(f)\<close> and
  \<open>int64(f)\<close> when the truncated value does not fit 64 bits (implementation-specific);
  \<open>lowerNonASCII\<close> is \<open>strings.ToLower\<close> on a string that is not all ASCII; \<open>rangeKeys\<close>
  is the order in which \<open>range\<close> visits the keys of a map (unspecified).
\<close>

record goruntime =
  formatFloat :: "real \<Rightarrow> string"
  convertOutOfRange :: "real \<Rightarrow> int"
  lowerNonASCII :: "string \<Rightarrow> string"
  rangeKeys :: "gomap \<Rightarrow> string list"

definition joinWith :: "string \<Rightarrow> string list \<Rightarrow> string" where
  "joinWith sep xs = (case xs of [] \<Rightarrow> [] | y # ys \<Rightarrow> foldl (\<lambda>a b. a @ sep @ b) y ys)"

text \<open>\<open>fmt.Sprintf("%v", src)\<close>; a map is printed with its keys sorted.\<close>

fun Sprint_v :: "goruntime \<Rightarrow> json \<Rightarrow> string" where
  "Sprint_v rt JNull = ''<nil>''"
| "Sprint_v rt (JBool b) = (if b then ''true'' else ''false'')"
| "Sprint_v rt (JNumber x) = formatFloat rt x"
| "Sprint_v rt (JString s) = s"
| "Sprint_v rt (JArray xs) = ''['' @ joinWith '' '' (map (Sprint_v rt) xs) @ '']''"
| "Sprint_v rt (JObject kvs) =
     (let printed = map (\<lambda>kv. (fst kv, Sprint_v rt (snd kv))) kvs
      in ''map['' @
         joinWith '' ''
           (map (\<lambda>k. k @ '':'' @ (case map_of printed k of None \<Rightarrow> [] | Some t \<Rightarrow> t))
             (sort (remdups (map fst kvs)))) @
         '']'')"

text \<open>The conversions \<open>int(f)\<close> and \<open>int64(f)\<close> of a \<open>float64\<close>: truncation toward zero.\<close>

definition truncate :: "real \<Rightarrow> int" where
  "truncate f = (if 0 \<le> f then \<lfloor>f\<rfloor> else \<lceil>f\<rceil>)"

definition floatToInt :: "goruntime \<Rightarrow> real \<Rightarrow> int" where
  "floatToInt rt f =
     (if - (2 ^ 63) \<le> truncate f \<and> truncate f < 2 ^ 63 then truncate f
      else convertOutOfRange rt f)"

definition isASCII :: "char \<Rightarrow> bool" where
  "isASCII c \<longleftrightarrow> (of_char c :: nat) < 128"

definition lowerASCII :: "char \<Rightarrow> char" where
  "lowerASCII c = (if CHR ''A'' \<le> c \<and> c \<le> CHR ''Z'' then char_of (of_char c + (32::nat)) else c)"

definition ToLower :: "goruntime \<Rightarrow> string \<Rightarrow> string" where
  "ToLower rt s = (if list_all isASCII s then map lowerASCII s else lowerNonASCII rt s)"

section \<open>The cursor and its scans (package utils, Rows)\<close>

record Rows =
  rows :: "gomap list"
  columns :: "string list"
  current :: int
  lastErr :: "error option"

definition NewRows :: "goruntime \<Rightarrow> gomap list \<Rightarrow> string list \<Rightarrow> Rows" where
  "NewRows rt rws cols =
     \<lparr> rows = rws,
       columns = (if length cols = 0 \<and> length rws > 0 then cols @ rangeKeys rt (hd rws) else cols),
       current = - 1,
       lastErr = None \<rparr>"

text \<open>\<open>Next\<close> returns its result and the cursor with the position advanced.\<close>

definition Next :: "Rows \<Rightarrow> bool \<times> Rows" where
  "Next r = (current r + 1 < int (length (rows r)), r\<lparr>current := current r + 1\<rparr>)"

definition Err :: "Rows \<Rightarrow> error option" where
  "Err r = lastErr r"

definition Columns :: "Rows \<Rightarrow> string list \<times> error option" where
  "Columns r = (columns r, None)"

definition Close :: "Rows \<Rightarrow> error option \<times> Rows" where
  "Close r = (None, r\<lparr>rows := []\<rparr>)"

text \<open>
  A destination handed to \<open>convertAssign\<close>: a pointer to a variable of one of the types of
  the type switch, with the variable's value; a \<open>sql.Scanner\<close>, given by the error its
  \<open>Scan\<close> method returns for a value, with the values handed to it so far; a pointer of
  any other type, named by that type; or a value that is no pointer.
\<close>

datatype dest =
    PString string
  | PInt int
  | PInt64 int
  | PFloat64 real
  | PBool bool
  | PAny json
  | PScanner "json \<Rightarrow> error option" "json list"
  | POther string
  | NotPointer string

fun convertAssign :: "goruntime \<Rightarrow> dest \<Rightarrow> json \<Rightarrow> error option \<times> dest" where
  "convertAssign rt (PString d) src =
     (if src = JNull then (None, PString [])
      else (None, PString (Sprint_v rt src)))"
| "convertAssign rt (PInt d) src =
     (case src of
        JNull \<Rightarrow> (None, PInt 0)
      | JNumber f \<Rightarrow> (None, PInt (floatToInt rt f))
      | JString s \<Rightarrow>
          (case Sscanf_d s of
             Some i \<Rightarrow> (None, PInt i)
           | None \<Rightarrow> (Some (CannotConvert (typeName src) ''int''), PInt d))
      | _ \<Rightarrow> (Some (CannotConvert (typeName src) ''int''), PInt d))"
| "convertAssign rt (PInt64 d) src =
     (case src of
        JNull \<Rightarrow> (None, PInt64 0)
      | JNumber f \<Rightarrow> (None, PInt64 (floatToInt rt f))
      | _ \<Rightarrow> (Some (CannotConvert (typeName src) ''int64''), PInt64 d))"
| "convertAssign rt (PFloat64 d) src =
     (case src of
        JNull \<Rightarrow> (None, PFloat64 0)
      | JNumber f \<Rightarrow> (None, PFloat64 f)
      | _ \<Rightarrow> (Some (CannotConvert (typeName src) ''float64''), PFloat64 d))"
| "convertAssign rt (PBool d) src =
     (case src of
        JNull \<Rightarrow> (None, PBool False)
      | JBool b \<Rightarrow> (None, PBool b)
      | JNumber f \<Rightarrow> (None, PBool (f \<noteq> 0))
      | _ \<Rightarrow> (Some (CannotConvert (typeName src) ''bool''), PBool d))"
| "convertAssign rt (PAny d) src = (None, PAny src)"
| "convertAssign rt (PScanner scan seen) src = (scan src, PScanner scan (seen @ [src]))"
| "convertAssign rt (POther ty) src = (None, POther ty)"
| "convertAssign rt (NotPointer ty) src = (Some DestinationNotPointer, NotPointer ty)"

text \<open>
  The loop of \<open>Scan\<close> over the columns from index \<open>i\<close> on: \<open>cols\<close> are the columns left
  and \<open>ds\<close> their destinations. The value of a column is \<open>row[colName]\<close>, or nil when
  the row has no such key. The destinations assigned before a failure keep their new
  values.
\<close>

definition columnValue :: "gomap \<Rightarrow> string \<Rightarrow> json" where
  "columnValue row colName = (case map_of row colName of None \<Rightarrow> JNull | Some val \<Rightarrow> val)"

fun scanColumns :: "goruntime \<Rightarrow> gomap \<Rightarrow> nat \<Rightarrow> string list \<Rightarrow> dest list \<Rightarrow> error option \<times> dest list" where
  "scanColumns rt row i (colName # cols) (d # ds) =
     (case convertAssign rt d (columnValue row colName) of
        (Some err, d') \<Rightarrow> (Some (ScanError i colName err), d' # ds)
      | (None, d') \<Rightarrow>
          (case scanColumns rt row (Suc i) cols ds of (e, ds') \<Rightarrow> (e, d' # ds')))"
| "scanColumns rt row i cols ds = (None, ds)"

definition Scan :: "goruntime \<Rightarrow> Rows \<Rightarrow> dest list \<Rightarrow> error option \<times> dest list" where
  "Scan rt r ds =
     (if current r < 0 \<or> current r \<ge> int (length (rows r)) then (Some RowsClosed, ds)
      else if length ds \<noteq> length (columns r)
        then (Some (ArityMismatch (length (columns r)) (length ds)), ds)
      else scanColumns rt (rows r ! nat (current r)) 0 (columns r) ds)"

text \<open>
  A struct field as reflection shows it: its name, its \<open>db\<close> tag (empty when there is
  none), whether it is exported, and a pointer to it as \<open>convertAssign\<close> takes it.
\<close>

record field =
  fname :: string
  ftag :: string
  fexported :: bool
  fcell :: dest

text \<open>A value behind a pointer: a struct with its fields, or a value of another kind.\<close>

datatype goval = VStruct "field list" | VOpaque string

datatype pointer = PtrTo goval | NoPointer

fun scanFields :: "goruntime \<Rightarrow> gomap \<Rightarrow> field list \<Rightarrow> error option \<times> field list" where
  "scanFields rt row [] = (None, [])"
| "scanFields rt row (f # fs) =
     (let tag = (if ftag f = [] then ToLower rt (fname f) else ftag f)
      in case map_of row tag of
           None \<Rightarrow> (case scanFields rt row fs of (e, fs') \<Rightarrow> (e, f # fs'))
         | Some val \<Rightarrow>
             if \<not> fexported f then (Some (Panic ''reflect: unexported field''), f # fs)
             else (case convertAssign rt (fcell f) val of
                     (Some err, d') \<Rightarrow> (Some (StructScanError (fname f) err), f\<lparr>fcell := d'\<rparr> # fs)
                   | (None, d') \<Rightarrow>
                       (case scanFields rt row fs of (e, fs') \<Rightarrow> (e, f\<lparr>fcell := d'\<rparr> # fs'))))"

definition StructScan :: "goruntime \<Rightarrow> Rows \<Rightarrow> pointer \<Rightarrow> error option \<times> pointer" where
  "StructScan rt r dst =
     (if current r < 0 \<or> current r \<ge> int (length (rows r)) then (Some RowsClosed, dst)
      else (case dst of
              PtrTo (VStruct fs) \<Rightarrow>
                (case scanFields rt (rows r ! nat (current r)) fs of
                   (e, fs') \<Rightarrow> (e, PtrTo (VStruct fs')))
            | _ \<Rightarrow> (Some NotStructPointer, dst)))"

text \<open>
  The destination of \<open>StructScanAll\<close>: no pointer, a pointer to something that is no
  slice, or a pointer to a slice. A slice has its element type, given by the zero value
  of that type, and its elements: \<open>None\<close> is the nil slice, \<open>Some []\<close> an empty slice
  that is not nil.
\<close>

datatype sliceDest =
    SNotPointer string
  | SPointerTo string
  | SPointerToSlice goval "goval list option"

definition appendSlice :: "goval list option \<Rightarrow> goval \<Rightarrow> goval list option" where
  "appendSlice sl x = (case sl of None \<Rightarrow> Some [x] | Some xs \<Rightarrow> Some (xs @ [x]))"

function StructScanAll_loop ::
  "goruntime \<Rightarrow> goval \<Rightarrow> Rows \<Rightarrow> goval list option \<Rightarrow> nat \<Rightarrow> error option \<times> Rows \<times> goval list option" where
  "StructScanAll_loop rt zero r sl count =
     (case Next r of
        (False, r') \<Rightarrow> (None, r', sl)
      | (True, r') \<Rightarrow>
          (case StructScan rt r' (PtrTo zero) of
             (Some (Panic p), _) \<Rightarrow> (Some (Panic p), r', sl)
           | (Some err, _) \<Rightarrow> (Some (StructScanAllError count err), r', sl)
           | (None, PtrTo elem) \<Rightarrow> StructScanAll_loop rt zero r' (appendSlice sl elem) (count + 1)
           | (None, NoPointer) \<Rightarrow> (None, r', sl)))"
  by pat_completeness auto
termination
  by (relation "measure (\<lambda>(rt, zero, r, sl, count). nat (int (length (rows r)) - current r))")
    (auto simp: Next_def)

declare StructScanAll_loop.simps [simp del]

definition StructScanAll :: "goruntime \<Rightarrow> Rows \<Rightarrow> sliceDest \<Rightarrow> error option \<times> Rows \<times> sliceDest" where
  "StructScanAll rt r dst =
     (case dst of
        SNotPointer ty \<Rightarrow> (Some (DestNotPointer ty), r, dst)
      | SPointerTo ty \<Rightarrow> (Some (DestNotSlicePointer ty), r, dst)
      | SPointerToSlice zero sl \<Rightarrow>
          (case StructScanAll_loop rt zero r sl 0 of
             (e, r', sl') \<Rightarrow> (e, r', SPointerToSlice zero sl')))"


section \<open>The response envelope and its normalization (utils/request.go)\<close>

record apiError =
  Code :: int
  Message :: string

record APIResponse =
  Result :: json
  Success :: bool
  Errors :: "apiError list"

text \<open>The column names of the results block: the strings of its \<open>columns\<close> list.\<close>

definition extractColumns :: "gomap \<Rightarrow> string list" where
  "extractColumns resultsData =
     (case map_of resultsData ''columns'' of
        Some (JArray colsRaw) \<Rightarrow>
          List.map_filter (\<lambda>c. case c of JString s \<Rightarrow> Some s | _ \<Rightarrow> None) colsRaw
      | _ \<Rightarrow> [])"

text \<open>The statements \<open>rowMap[col] = v[j]\<close> for \<open>j\<close> over the columns, from the empty map.\<close>

definition rowFromArray :: "string list \<Rightarrow> json list \<Rightarrow> gomap" where
  "rowFromArray cols v = fold (\<lambda>cx m. AList.update (fst cx) (snd cx) m) (zip cols v) []"

definition convertRow :: "string list \<Rightarrow> nat \<Rightarrow> json \<Rightarrow> error + gomap" where
  "convertRow cols i row =
     (case row of
        JObject v \<Rightarrow> Inr v
      | JArray v \<Rightarrow>
          if length cols = length v then Inr (rowFromArray cols v)
          else Inl (RowWidthMismatch i (length v) (length cols))
      | _ \<Rightarrow> Inl (RowType i (typeName row)))"

text \<open>The loop of \<open>ToRows\<close> over \<open>rowsRaw\<close> from index \<open>i\<close> on.\<close>

fun convertRows :: "string list \<Rightarrow> nat \<Rightarrow> json list \<Rightarrow> error + gomap list" where
  "convertRows cols i [] = Inr []"
| "convertRows cols i (row # rest) =
     (case convertRow cols i row of
        Inl err \<Rightarrow> Inl err
      | Inr rowMap \<Rightarrow>
          (case convertRows cols (Suc i) rest of
             Inl err \<Rightarrow> Inl err
           | Inr rws \<Rightarrow> Inr (rowMap # rws)))"

definition ToRows :: "goruntime \<Rightarrow> APIResponse \<Rightarrow> error + Rows" where
  "ToRows rt r =
     (if \<not> Success r then
        (if length (Errors r) > 0 then Inl (ApiError (Message (hd (Errors r))))
         else Inl ApiErrorUnknown)
      else
        (case Result r of
           JArray results \<Rightarrow>
             if length results = 0 then Inr (NewRows rt [] [])
             else
               (case hd results of
                  JObject queryResult \<Rightarrow>
                    (case map_of queryResult ''results'' of
                       Some (JObject resultsData) \<Rightarrow>
                         (case map_of resultsData ''rows'' of
                            Some (JArray rowsRaw) \<Rightarrow>
                              (case convertRows (extractColumns resultsData) 0 rowsRaw of
                                 Inl err \<Rightarrow> Inl err
                               | Inr rws \<Rightarrow> Inr (NewRows rt rws (extractColumns resultsData)))
                          | _ \<Rightarrow> Inr (NewRows rt [] []))
                     | _ \<Rightarrow> Inl MissingResults)
                | _ \<Rightarrow> Inl ResultItemFormat)
         | _ \<Rightarrow> Inl ResultNotArray))"

text \<open>
  Modelled from the spec: the type \<open>Result\<close> and its constructor \<open>NewResult\<close> are not in
  the sources at hand; the result summary holds the last-inserted identifier and the
  affected-row count.
\<close>

record ExecResult =
  lastInsertId :: int
  rowsAffected :: int

definition NewResult :: "int \<Rightarrow> int \<Rightarrow> ExecResult" where
  "NewResult i n = \<lparr> lastInsertId = i, rowsAffected = n \<rparr>"

definition metaNumber :: "goruntime \<Rightarrow> json \<Rightarrow> int" where
  "metaNumber rt val = (case val of JNumber f \<Rightarrow> floatToInt rt f | _ \<Rightarrow> 0)"

definition ToResult :: "goruntime \<Rightarrow> APIResponse \<Rightarrow> error + ExecResult" where
  "ToResult rt r =
     (if \<not> Success r then
        (if length (Errors r) > 0 then Inl (ApiError (Message (hd (Errors r))))
         else Inl ApiErrorUnknown)
      else
        (case Result r of
           JArray results \<Rightarrow>
             if length results = 0 then Inr (NewResult 0 0)
             else
               (case hd results of
                  JObject queryResult \<Rightarrow>
                    (case map_of queryResult ''meta'' of
                       Some (JObject metaData) \<Rightarrow>
                         Inr (NewResult
                           (case map_of metaData ''last_row_id'' of
                              Some val \<Rightarrow> metaNumber rt val
                            | None \<Rightarrow> 0)
                           (case map_of metaData ''changes'' of
                              Some val \<Rightarrow> metaNumber rt val
                            | None \<Rightarrow>
                                (case map_of metaData ''rows_written'' of
                                   Some val \<Rightarrow> metaNumber rt val
                                 | None \<Rightarrow> 0)))
                     | _ \<Rightarrow> Inr (NewResult 0 0))
                | _ \<Rightarrow> Inl ResultItemFormat)
         | _ \<Rightarrow> Inl ResultNotArray))"

definition APIResponse_StructScanAll :: "goruntime \<Rightarrow> APIResponse \<Rightarrow> sliceDest \<Rightarrow> error option \<times> sliceDest" where
  "APIResponse_StructScanAll rt r dst =
     (case ToRows rt r of
        Inl err \<Rightarrow> (Some err, dst)
      | Inr rws \<Rightarrow> (case StructScanAll rt rws dst of (e, rws', dst') \<Rightarrow> (e, dst')))"

definition APIResponse_Get :: "goruntime \<Rightarrow> APIResponse \<Rightarrow> pointer \<Rightarrow> error option \<times> pointer" where
  "APIResponse_Get rt r dst =
     (case ToRows rt r of
        Inl err \<Rightarrow> (Some err, dst)
      | Inr rws \<Rightarrow>
          (case Next rws of
             (False, rws') \<Rightarrow> (Some NoRows, dst)
           | (True, rws') \<Rightarrow> StructScan rt rws' dst))"

section \<open>Migrations: identity and order (migrations/migration.go)\<close>

datatype MigrationDirection = Up | Down

record Migration =
  Id_m :: string
  Up_m :: "string list"
  Down_m :: "string list"
  DisableTransactionUp_m :: bool
  DisableTransactionDown_m :: bool

definition NumberPrefixMatches :: "Migration \<Rightarrow> string list" where
  "NumberPrefixMatches m = FindStringSubmatch_numberPrefix (Id_m m)"

definition isNumeric :: "Migration \<Rightarrow> bool" where
  "isNumeric m \<longleftrightarrow> length (NumberPrefixMatches m) > 0"

text \<open>
  \<open>VersionInt\<close> indexes the match at 1, which panics without a match: \<open>None\<close>. When
  \<open>strconv.ParseInt\<close> returns an error, the result is 0.
\<close>

definition VersionInt :: "Migration \<Rightarrow> int option" where
  "VersionInt m =
     (if length (NumberPrefixMatches m) \<le> 1 then None
      else (case ParseInt (NumberPrefixMatches m ! 1) of None \<Rightarrow> Some 0 | Some v \<Rightarrow> Some v))"

definition Less :: "Migration \<Rightarrow> Migration \<Rightarrow> bool" where
  "Less m other =
     (if isNumeric m \<and> isNumeric other \<and> VersionInt m \<noteq> VersionInt other then
        (case (VersionInt m, VersionInt other) of
           (Some a, Some b) \<Rightarrow> a < b
         | _ \<Rightarrow> False)
      else if isNumeric m \<and> \<not> isNumeric other then True
      else if \<not> isNumeric m \<and> isNumeric other then False
      else Id_m m < Id_m other)"

text \<open>
  \<open>sort.Sort(byId(migrations))\<close>: a sort by \<open>Less\<close>, here by insertion. (Go's sort is not
  stable: the order it gives two migrations of which neither is \<open>Less\<close> than the other
  is not specified.)
\<close>

fun insertById :: "Migration \<Rightarrow> Migration list \<Rightarrow> Migration list" where
  "insertById m [] = [m]"
| "insertById m (x # xs) = (if Less x m then x # insertById m xs else m # x # xs)"

definition sortById :: "Migration list \<Rightarrow> Migration list" where
  "sortById ms = foldr insertById ms []"

text \<open>
  A migration source: the in-memory source of migrations/source.go, or any other
  implementation of the interface, given by what its \<open>FindMigrations\<close> returns.
\<close>

datatype MigrationSource =
    MemoryMigrationSource "Migration list"
  | OtherSource "error + Migration list"

fun FindMigrations :: "MigrationSource \<Rightarrow> error + Migration list" where
  "FindMigrations (MemoryMigrationSource ms) = Inr (sortById ms)"
| "FindMigrations (OtherSource res) = res"

section \<open>The migration parser (migrations/parser.go)\<close>

record ParsedMigration =
  UpStatements :: "string list"
  DownStatements :: "string list"
  DisableTransactionUp :: bool
  DisableTransactionDown :: bool

definition splitSQLStatements :: "string \<Rightarrow> string list" where
  "splitSQLStatements sql = Split sql (CHR '';'')"

definition appendStatement :: "ParsedMigration \<Rightarrow> MigrationDirection \<Rightarrow> string \<Rightarrow> ParsedMigration" where
  "appendStatement p dir sql =
     fold (\<lambda>stmt p.
            if TrimSpace stmt = [] then p
            else if dir = Up then p\<lparr>UpStatements := UpStatements p @ [TrimSpace stmt]\<rparr>
            else p\<lparr>DownStatements := DownStatements p @ [TrimSpace stmt]\<rparr>)
       (splitSQLStatements sql) p"

definition flush :: "ParsedMigration \<Rightarrow> MigrationDirection \<Rightarrow> string \<Rightarrow> ParsedMigration" where
  "flush p dir buf = (if length buf > 0 then appendStatement p dir buf else p)"

text \<open>
  The loop of \<open>parseMigration\<close> over the lines of the scanner, with the parsed migration
  so far, the current direction and the buffer, and the flush after the loop.
\<close>

fun parseLines :: "ParsedMigration \<Rightarrow> MigrationDirection \<Rightarrow> string \<Rightarrow> string list \<Rightarrow> ParsedMigration" where
  "parseLines p dir buf [] = flush p dir buf"
| "parseLines p dir buf (line # ls) =
     (if HasPrefix line ''-- +migrate Up'' then
        parseLines
          (if Contains line ''notransaction'' then (flush p dir buf)\<lparr>DisableTransactionUp := True\<rparr>
           else flush p dir buf)
          Up [] ls
      else if HasPrefix line ''-- +migrate Down'' then
        parseLines
          (if Contains line ''notransaction'' then (flush p dir buf)\<lparr>DisableTransactionDown := True\<rparr>
           else flush p dir buf)
          Down [] ls
      else if HasPrefix line ''-- +migrate StatementBegin'' then parseLines p dir buf ls
      else if HasPrefix line ''-- +migrate StatementEnd'' then parseLines p dir buf ls
      else parseLines p dir ((if length buf > 0 then buf @ [CHR 0x0A] else buf) @ line) ls)"

definition emptyParsed :: ParsedMigration where
  "emptyParsed =
     \<lparr> UpStatements = [], DownStatements = [],
       DisableTransactionUp = False, DisableTransactionDown = False \<rparr>"

definition parseMigration :: "string \<Rightarrow> error + ParsedMigration" where
  "parseMigration text = Inr (parseLines emptyParsed Up [] (scanLines text))"

definition ParseMigration :: "string \<Rightarrow> string \<Rightarrow> error + Migration" where
  "ParseMigration ident text =
     (case parseMigration text of
        Inl err \<Rightarrow> Inl (MigrationParseError ident err)
      | Inr parsed \<Rightarrow>
          Inr \<lparr> Id_m = ident, Up_m = UpStatements parsed, Down_m = DownStatements parsed,
                DisableTransactionUp_m = DisableTransactionUp parsed,
                DisableTransactionDown_m = DisableTransactionDown parsed \<rparr>)"


section \<open>The client (package client)\<close>

text \<open>
  \<open>utils.DoRequest\<close> sends one request to the service and decodes the body of the answer
  into an \<open>APIResponse\<close>; its error is a failure of the transport or of the decoding. The
  service is a collaborator: \<open>DoRequest\<close> is given as a function on the state \<open>'w\<close> of the
  world outside, and so is the clock read by \<open>time.Now().Format(time.RFC3339)\<close>. A
  request is given by the parts of its URL, its token and the two fields of its body
  (\<open>params\<close> is \<open>None\<close> for a nil slice).
\<close>

record request =
  req_account :: string
  req_token :: string
  req_database :: string
  req_sql :: string
  req_params :: "string list option"

record 'w collaborators =
  DoRequest :: "request \<Rightarrow> 'w \<Rightarrow> (error + APIResponse) \<times> 'w"
  Now :: "'w \<Rightarrow> string"

record Client =
  AccountID :: string
  APIToken :: string
  DatabaseID :: string

definition QueryDB ::
  "'w collaborators \<Rightarrow> Client \<Rightarrow> string \<Rightarrow> string \<Rightarrow> string list option \<Rightarrow> 'w \<Rightarrow> (error + APIResponse) \<times> 'w" where
  "QueryDB env c databaseID query params w =
     DoRequest env
       \<lparr> req_account = AccountID c, req_token = APIToken c, req_database = databaseID,
         req_sql = query, req_params = params \<rparr> w"

definition Query ::
  "'w collaborators \<Rightarrow> Client \<Rightarrow> string \<Rightarrow> string list option \<Rightarrow> 'w \<Rightarrow> (error + APIResponse) \<times> 'w" where
  "Query env c query params w =
     (if DatabaseID c = [] then (Inl NoDatabaseConnected, w)
      else QueryDB env c (DatabaseID c) query params w)"

definition CreateTableWithID ::
  "'w collaborators \<Rightarrow> Client \<Rightarrow> string \<Rightarrow> string \<Rightarrow> 'w \<Rightarrow> (error + APIResponse) \<times> 'w" where
  "CreateTableWithID env c databaseID createQuery w =
     DoRequest env
       \<lparr> req_account = AccountID c, req_token = APIToken c, req_database = databaseID,
         req_sql = createQuery, req_params = Some [] \<rparr> w"

definition CreateTable ::
  "'w collaborators \<Rightarrow> Client \<Rightarrow> string \<Rightarrow> 'w \<Rightarrow> (error + APIResponse) \<times> 'w" where
  "CreateTable env c createQuery w =
     (if DatabaseID c = [] then (Inl NoDatabaseConnected, w)
      else CreateTableWithID env c (DatabaseID c) createQuery w)"

section \<open>The planner and the executor (migrations/executor.go)\<close>

record MigrationSet =
  TableName :: string

definition getTableName :: "MigrationSet \<Rightarrow> string" where
  "getTableName ms = (if TableName ms = [] then ''d1_migrations'' else TableName ms)"

definition createTableSQL :: "string \<Rightarrow> string" where
  "createTableSQL tbl =
     ''CREATE TABLE IF NOT EXISTS '' @ tbl @ '' ('' @ [CHR 0x0A, CHR 0x09, CHR 0x09] @
     ''id TEXT PRIMARY KEY,'' @ [CHR 0x0A, CHR 0x09, CHR 0x09] @
     ''applied_at DATETIME'' @ [CHR 0x0A, CHR 0x09] @ '');''"

definition selectSQL :: "string \<Rightarrow> string" where
  "selectSQL tbl = ''SELECT id FROM '' @ tbl @ '' ORDER BY id ASC;''"

definition insertSQL :: "string \<Rightarrow> string" where
  "insertSQL tbl = ''INSERT INTO '' @ tbl @ '' (id, applied_at) VALUES (?, ?);''"

definition deleteSQL :: "string \<Rightarrow> string" where
  "deleteSQL tbl = ''DELETE FROM '' @ tbl @ '' WHERE id = ?;''"

definition ensureTable :: "'w collaborators \<Rightarrow> MigrationSet \<Rightarrow> Client \<Rightarrow> 'w \<Rightarrow> error option \<times> 'w" where
  "ensureTable env ms client w =
     (case CreateTable env client (createTableSQL (getTableName ms)) w of
        (Inl err, w') \<Rightarrow> (Some err, w')
      | (Inr res, w') \<Rightarrow> (None, w'))"

text \<open>The struct \<open>record\<close> of \<open>getAppliedMigrations\<close>, at its zero value, and its field.\<close>

definition recordZero :: goval where
  "recordZero = VStruct [\<lparr> fname = ''Id'', ftag = ''id'', fexported = True, fcell = PString [] \<rparr>]"

definition recordId :: "pointer \<Rightarrow> string" where
  "recordId p =
     (case p of
        PtrTo (VStruct [f]) \<Rightarrow> (case fcell f of PString s \<Rightarrow> s | _ \<Rightarrow> [])
      | _ \<Rightarrow> [])"

function readIds :: "goruntime \<Rightarrow> Rows \<Rightarrow> string list \<Rightarrow> error + string list" where
  "readIds rt r ids =
     (case Next r of
        (False, r') \<Rightarrow> Inr ids
      | (True, r') \<Rightarrow>
          (case StructScan rt r' (PtrTo recordZero) of
             (Some err, p) \<Rightarrow> Inl err
           | (None, p) \<Rightarrow> readIds rt r' (ids @ [recordId p])))"
  by pat_completeness auto
termination
  by (relation "measure (\<lambda>(rt, r, ids). nat (int (length (rows r)) - current r))")
    (auto simp: Next_def)

declare readIds.simps [simp del]

definition getAppliedMigrations ::
  "goruntime \<Rightarrow> 'w collaborators \<Rightarrow> MigrationSet \<Rightarrow> Client \<Rightarrow> 'w \<Rightarrow> (error + string list) \<times> 'w" where
  "getAppliedMigrations rt env ms client w =
     (case Query env client (selectSQL (getTableName ms)) None w of
        (Inl err, w') \<Rightarrow> (Inl err, w')
      | (Inr res, w') \<Rightarrow>
          (case ToRows rt res of
             Inl err \<Rightarrow> (Inl err, w')
           | Inr rws \<Rightarrow> (readIds rt rws [], w')))"

definition appliedMap :: "string list \<Rightarrow> string \<Rightarrow> bool option" where
  "appliedMap applied = fold (\<lambda>ident mp. mp(ident \<mapsto> True)) applied Map.empty"

definition migrationMap :: "Migration list \<Rightarrow> string \<Rightarrow> Migration option" where
  "migrationMap allMigrations = fold (\<lambda>m mp. mp(Id_m m \<mapsto> m)) allMigrations Map.empty"

definition planMigrations ::
  "MigrationSet \<Rightarrow> Migration list \<Rightarrow> string list \<Rightarrow> MigrationDirection \<Rightarrow> int \<Rightarrow> Migration list" where
  "planMigrations ms allMigrations applied dir max_n =
     (let toApply =
            (if dir = Up then
               filter (\<lambda>m. \<not> (case appliedMap applied (Id_m m) of None \<Rightarrow> False | Some b \<Rightarrow> b))
                 allMigrations
             else List.map_filter (migrationMap allMigrations) (rev applied))
      in if max_n > 0 \<and> int (length toApply) > max_n then take (nat max_n) toApply else toApply)"

text \<open>The loop of \<open>applyMigration\<close> over the statements of the migration.\<close>

fun runQueries :: "'w collaborators \<Rightarrow> Client \<Rightarrow> string list \<Rightarrow> 'w \<Rightarrow> error option \<times> 'w" where
  "runQueries env client [] w = (None, w)"
| "runQueries env client (q # qs) w =
     (case Query env client q None w of
        (Inl err, w') \<Rightarrow> (Some err, w')
      | (Inr res, w') \<Rightarrow> runQueries env client qs w')"

definition applyMigration ::
  "'w collaborators \<Rightarrow> MigrationSet \<Rightarrow> Client \<Rightarrow> Migration \<Rightarrow> MigrationDirection \<Rightarrow> 'w \<Rightarrow> error option \<times> 'w" where
  "applyMigration env ms client m dir w =
     (case runQueries env client (if dir = Down then Down_m m else Up_m m) w of
        (Some err, w') \<Rightarrow> (Some err, w')
      | (None, w') \<Rightarrow>
          (case (if dir = Up
                 then Query env client (insertSQL (getTableName ms)) (Some [Id_m m, Now env w']) w'
                 else Query env client (deleteSQL (getTableName ms)) (Some [Id_m m]) w') of
             (Inl err, w'') \<Rightarrow> (Some err, w'')
           | (Inr res, w'') \<Rightarrow> (None, w'')))"

text \<open>The loop of \<open>ExecMax\<close> over the plan, with the count so far.\<close>

fun applyAll ::
  "'w collaborators \<Rightarrow> MigrationSet \<Rightarrow> Client \<Rightarrow> MigrationDirection \<Rightarrow> Migration list \<Rightarrow> int \<Rightarrow> 'w \<Rightarrow> (int \<times> error option) \<times> 'w" where
  "applyAll env ms client dir [] count w = ((count, None), w)"
| "applyAll env ms client dir (migration # rest) count w =
     (case applyMigration env ms client migration dir w of
        (Some err, w') \<Rightarrow> ((count, Some (ApplyMigrationFailed (Id_m migration) err)), w')
      | (None, w') \<Rightarrow> applyAll env ms client dir rest (count + 1) w')"

definition ExecMax ::
  "goruntime \<Rightarrow> 'w collaborators \<Rightarrow> MigrationSet \<Rightarrow> Client \<Rightarrow> MigrationSource \<Rightarrow> MigrationDirection \<Rightarrow> int \<Rightarrow> 'w \<Rightarrow> (int \<times> error option) \<times> 'w" where
  "ExecMax rt env ms client m dir max_n w =
     (case ensureTable env ms client w of
        (Some err, w1) \<Rightarrow> ((0, Some (EnsureTableFailed err)), w1)
      | (None, w1) \<Rightarrow>
          (case getAppliedMigrations rt env ms client w1 of
             (Inl err, w2) \<Rightarrow> ((0, Some (GetAppliedFailed err)), w2)
           | (Inr applied, w2) \<Rightarrow>
               (case FindMigrations m of
                  Inl err \<Rightarrow> ((0, Some (FindMigrationsFailed err)), w2)
                | Inr allMigrations \<Rightarrow>
                    applyAll env ms client dir
                      (planMigrations ms allMigrations applied dir max_n) 0 w2)))"

definition Exec ::
  "goruntime \<Rightarrow> 'w collaborators \<Rightarrow> MigrationSet \<Rightarrow> Client \<Rightarrow> MigrationSource \<Rightarrow> MigrationDirection \<Rightarrow> 'w \<Rightarrow> (int \<times> error option) \<times> 'w" where
  "Exec rt env ms client m dir w = ExecMax rt env ms client m dir 0 w"

section \<open>The database behind the transport\<close>

text \<open>
  For the claims that speak of the ledger, the service is a database that holds the
  ledger table and answers the four statements of the executor as SQLite does: the
  table is created when absent; \<open>ORDER BY id ASC\<close> sorts the text ids bytewise; \<open>id\<close> is
  the primary key, so an insert of a present id fails; a statement on an absent table
  fails. A failed statement is answered by an envelope with \<open>success = false\<close>, with no
  error of the transport. Every other statement is run by \<open>exec\<close> on the rest of the
  database, which answers with an envelope of its own.
\<close>

record 'u database =
  ledgerTable :: "(string \<times> string) list option"
  userData :: 'u

definition okResponse :: "string list \<Rightarrow> json list \<Rightarrow> APIResponse" where
  "okResponse cols rws =
     \<lparr> Result = JArray [JObject [(''results'',
           JObject [(''columns'', JArray (map JString cols)), (''rows'', JArray rws)])]],
       Success = True, Errors = [] \<rparr>"

definition failResponse :: "string \<Rightarrow> APIResponse" where
  "failResponse msg = \<lparr> Result = JNull, Success = False, Errors = [\<lparr> Code = 7500, Message = msg \<rparr>] \<rparr>"

definition d1_DoRequest ::
  "string \<Rightarrow> (string \<Rightarrow> string list option \<Rightarrow> 'u \<Rightarrow> APIResponse \<times> 'u) \<Rightarrow> request \<Rightarrow> 'u database \<Rightarrow> (error + APIResponse) \<times> 'u database" where
  "d1_DoRequest tbl exec rq db =
     (if req_sql rq = createTableSQL tbl then
        (Inr (okResponse [] []),
         db\<lparr>ledgerTable := Some (case ledgerTable db of None \<Rightarrow> [] | Some l \<Rightarrow> l)\<rparr>)
      else if req_sql rq = selectSQL tbl then
        (case ledgerTable db of
           None \<Rightarrow> (Inr (failResponse ''no such table''), db)
         | Some l \<Rightarrow> (Inr (okResponse [''id''] (map (\<lambda>i. JArray [JString i]) (sort (map fst l)))), db))
      else if req_sql rq = insertSQL tbl then
        (case (ledgerTable db, req_params rq) of
           (Some l, Some [i, t]) \<Rightarrow>
             if i \<in> set (map fst l) then (Inr (failResponse ''UNIQUE constraint failed''), db)
             else (Inr (okResponse [] []), db\<lparr>ledgerTable := Some (l @ [(i, t)])\<rparr>)
         | _ \<Rightarrow> (Inr (failResponse ''statement failed''), db))
      else if req_sql rq = deleteSQL tbl then
        (case (ledgerTable db, req_params rq) of
           (Some l, Some [i]) \<Rightarrow>
             (Inr (okResponse [] []), db\<lparr>ledgerTable := Some (filter (\<lambda>row. fst row \<noteq> i) l)\<rparr>)
         | _ \<Rightarrow> (Inr (failResponse ''statement failed''), db))
      else
        (case exec (req_sql rq) (req_params rq) (userData db) of
           (res, u) \<Rightarrow> (Inr res, db\<lparr>userData := u\<rparr>)))"

definition d1 ::
  "string \<Rightarrow> (string \<Rightarrow> string list option \<Rightarrow> 'u \<Rightarrow> APIResponse \<times> 'u) \<Rightarrow> ('u database \<Rightarrow> string) \<Rightarrow> 'u database collaborators" where
  "d1 tbl exec clock = \<lparr> DoRequest = d1_DoRequest tbl exec, Now = clock \<rparr>"


section \<open>Notions of the claims and data for the examples\<close>

text \<open>
  A run time for the examples, which format no float, lower no non-ASCII name and range
  over no map of more than one key; an out-of-range conversion gives the least integer,
  as on amd64.
\<close>

definition exampleRuntime :: goruntime where
  "exampleRuntime =
     \<lparr> formatFloat = (\<lambda>x. ''float64''), convertOutOfRange = (\<lambda>f. - (2 ^ 63)),
       lowerNonASCII = (\<lambda>s. s), rangeKeys = (\<lambda>m. map fst m) \<rparr>"

text \<open>The message an envelope of failure is reported with.\<close>

definition apiErrorOf :: "APIResponse \<Rightarrow> error" where
  "apiErrorOf r = (case Errors r of [] \<Rightarrow> ApiErrorUnknown | e # es \<Rightarrow> ApiError (Message e))"

text \<open>A migration that is its id alone.\<close>

definition migration :: "string \<Rightarrow> Migration" where
  "migration i =
     \<lparr> Id_m = i, Up_m = [], Down_m = [],
       DisableTransactionUp_m = False, DisableTransactionDown_m = False \<rparr>"


text \<open>
  The ordering rule in the words of the specification: an id that starts with a run of
  digits is numeric-prefixed and has the integer value of that run.
\<close>

definition numericPrefixed :: "string \<Rightarrow> bool" where
  "numericPrefixed i \<longleftrightarrow> i \<noteq> [] \<and> isDigit (hd i)"

definition prefixValue :: "string \<Rightarrow> int" where
  "prefixValue i = decimal (takeWhile isDigit i)"

definition Less_spec :: "string \<Rightarrow> string \<Rightarrow> bool" where
  "Less_spec a b =
     (if numericPrefixed a \<and> numericPrefixed b then
        (if prefixValue a \<noteq> prefixValue b then prefixValue a < prefixValue b else a < b)
      else if numericPrefixed a then True
      else if numericPrefixed b then False
      else a < b)"


text \<open>A struct type of two fields, at its zero value.\<close>

definition userZero :: goval where
  "userZero = VStruct
     [\<lparr> fname = ''ID'', ftag = ''id'', fexported = True, fcell = PInt 0 \<rparr>,
      \<lparr> fname = ''Name'', ftag = ''name'', fexported = True, fcell = PString [] \<rparr>]"


text \<open>
  The value a destination holds after a null: the empty string, zero, false or nil.
  The other destinations have none.
\<close>

fun nullValue :: "dest \<Rightarrow> dest option" where
  "nullValue (PString d) = Some (PString [])"
| "nullValue (PInt d) = Some (PInt 0)"
| "nullValue (PInt64 d) = Some (PInt64 0)"
| "nullValue (PFloat64 d) = Some (PFloat64 0)"
| "nullValue (PBool d) = Some (PBool False)"
| "nullValue (PAny d) = Some (PAny JNull)"
| "nullValue d = None"

text \<open>A cursor on its first row, which has one of the three columns.\<close>

definition exampleRows :: Rows where
  "exampleRows =
     \<lparr> rows = [[(''name'', JString ''Alice'')]], columns = [''name'', ''age'', ''email''],
       current = 0, lastErr = None \<rparr>"

text \<open>
  For the parser: the direction directives and the block directives; the buffer after a
  run of lines without direction directive, from a given buffer; the statements a
  buffer is flushed into, which are its pieces between semicolons, trimmed, without the
  empty ones; and the parts of two parsed migrations one after the other.
\<close>

definition isDirectionLine :: "string \<Rightarrow> bool" where
  "isDirectionLine line \<longleftrightarrow>
     HasPrefix line ''-- +migrate Up'' \<or> HasPrefix line ''-- +migrate Down''"

definition isBlockLine :: "string \<Rightarrow> bool" where
  "isBlockLine line \<longleftrightarrow>
     HasPrefix line ''-- +migrate StatementBegin'' \<or> HasPrefix line ''-- +migrate StatementEnd''"

definition accumulate :: "string \<Rightarrow> string list \<Rightarrow> string" where
  "accumulate buf ls =
     foldl (\<lambda>b line. (if length b > 0 then b @ [CHR 0x0A] else b) @ line) buf
       (filter (\<lambda>line. \<not> isBlockLine line) ls)"

definition statementsOf :: "string \<Rightarrow> string list" where
  "statementsOf sql = filter (\<lambda>stmt. stmt \<noteq> []) (map TrimSpace (Split sql (CHR '';'')))"

definition combine :: "ParsedMigration \<Rightarrow> ParsedMigration \<Rightarrow> ParsedMigration" where
  "combine p q =
     \<lparr> UpStatements = UpStatements p @ UpStatements q,
       DownStatements = DownStatements p @ DownStatements q,
       DisableTransactionUp = (DisableTransactionUp p \<or> DisableTransactionUp q),
       DisableTransactionDown = (DisableTransactionDown p \<or> DisableTransactionDown q) \<rparr>"

text \<open>
  The rows of the ledger table (none when the table is absent), the row the ledger query
  answers for an id, and data for the examples: a connected client, a clock, a database
  that logs the statements it runs, one that rejects them, and a migration that creates
  and drops one table.
\<close>

definition ledgerRows :: "'u database \<Rightarrow> (string \<times> string) list" where
  "ledgerRows db = (case ledgerTable db of None \<Rightarrow> [] | Some l \<Rightarrow> l)"

definition idRow :: "string \<Rightarrow> gomap" where
  "idRow i = [(''id'', JString i)]"

definition client0 :: Client where
  "client0 = \<lparr> AccountID = ''account'', APIToken = ''token'', DatabaseID = ''database'' \<rparr>"

definition clock0 :: "'u database \<Rightarrow> string" where
  "clock0 db = ''2026-01-01T00:00:00Z''"

definition logStatements :: "string \<Rightarrow> string list option \<Rightarrow> string list \<Rightarrow> APIResponse \<times> string list" where
  "logStatements q params u = (okResponse [] [], u @ [q])"

definition rejectStatements :: "string \<Rightarrow> string list option \<Rightarrow> string list \<Rightarrow> APIResponse \<times> string list" where
  "rejectStatements q params u = (failResponse ''syntax error'', u @ [q])"

definition tableMigration :: "string \<Rightarrow> Migration" where
  "tableMigration i =
     \<lparr> Id_m = i, Up_m = [''CREATE TABLE t_'' @ i], Down_m = [''DROP TABLE t_'' @ i],
       DisableTransactionUp_m = False, DisableTransactionDown_m = False \<rparr>"

text \<open>
  The version \<open>Less\<close> compares two numeric ids by, and ascending sort order: no migration
  of the list is \<open>Less\<close> than one before it.
\<close>

definition version :: "Migration \<Rightarrow> int" where
  "version m = (case VersionInt m of None \<Rightarrow> 0 | Some v \<Rightarrow> v)"

definition ascending :: "Migration list \<Rightarrow> bool" where
  "ascending ms \<longleftrightarrow> sorted_wrt (\<lambda>a b. \<not> Less b a) ms"

text \<open>
  Text order, the order of the database on the column \<open>id\<close>, agrees with \<open>Less\<close> on the
  ids of a list: of any two of them, one is \<open>Less\<close> than the other exactly when it comes
  before it as a text.
\<close>

definition textOrderAgrees :: "string list \<Rightarrow> bool" where
  "textOrderAgrees ids \<longleftrightarrow>
     (\<forall>a \<in> set ids. \<forall>b \<in> set ids. Less (migration a) (migration b) = (a < b))"

section \<open>Normalization of the response envelope\<close>

text \<open>
  Claim C7. For every response envelope with \<open>success = false\<close>, \<open>ToRows\<close> and \<open>ToResult\<close>
  alike fail with the API error that carries the first reported message when the error
  list is not empty, and with the generic unknown error when it is empty.
\<close>

theorem failure_envelope_api_error:
  assumes "\<not> Success r"
  shows "ToRows rt r = Inl (apiErrorOf r) \<and> ToResult rt r = Inl (apiErrorOf r)"
  using assms by (cases "Errors r") (simp_all add: ToRows_def ToResult_def apiErrorOf_def)

theorem failure_envelope_api_error_witness:
  "\<not> Success \<lparr> Result = JNull, Success = False,
       Errors = [\<lparr> Code = 7500, Message = ''no such table: users'' \<rparr>, \<lparr> Code = 1, Message = ''second'' \<rparr>] \<rparr>
   \<and> ToRows exampleRuntime \<lparr> Result = JNull, Success = False,
       Errors = [\<lparr> Code = 7500, Message = ''no such table: users'' \<rparr>, \<lparr> Code = 1, Message = ''second'' \<rparr>] \<rparr>
       = Inl (ApiError ''no such table: users'')
   \<and> ToResult exampleRuntime \<lparr> Result = JNull, Success = False,
       Errors = [\<lparr> Code = 7500, Message = ''no such table: users'' \<rparr>, \<lparr> Code = 1, Message = ''second'' \<rparr>] \<rparr>
       = Inl (ApiError ''no such table: users'')"
  using failure_envelope_api_error [of "\<lparr> Result = JNull, Success = False,
       Errors = [\<lparr> Code = 7500, Message = ''no such table: users'' \<rparr>, \<lparr> Code = 1, Message = ''second'' \<rparr>] \<rparr>" exampleRuntime]
  by (simp add: apiErrorOf_def)

lemma fold_update_other:
  "k \<notin> fst ` set xs \<Longrightarrow>
   map_of (fold (\<lambda>cx m. AList.update (fst cx) (snd cx) m) xs m0) k = map_of m0 k"
  by (induction xs arbitrary: m0) (auto simp: update_conv')

lemma rowFromArray_nth:
  "length cols = length v \<Longrightarrow> distinct cols \<Longrightarrow> j < length cols \<Longrightarrow>
   map_of (fold (\<lambda>cx m. AList.update (fst cx) (snd cx) m) (zip cols v) m0) (cols ! j) = Some (v ! j)"
proof (induction cols arbitrary: v m0 j)
  case Nil
  then show ?case by simp
next
  case (Cons c cols)
  then obtain x v' where v: "v = x # v'" by (cases v) auto
  show ?case
  proof (cases j)
    case 0
    from Cons.prems have "c \<notin> fst ` set (zip cols v')"
      by (auto dest: set_zip_leftD)
    then show ?thesis using 0 v by (simp add: fold_update_other update_conv')
  next
    case (Suc j')
    with Cons.IH [of v' j' "AList.update c x m0"] Cons.prems v show ?thesis by simp
  qed
qed

lemma convertRows_Inr:
  "convertRows cols k rs = Inr out \<Longrightarrow>
   length out = length rs \<and> (\<forall>i<length rs. convertRow cols (k + i) (rs ! i) = Inr (out ! i))"
proof (induction rs arbitrary: k out)
  case Nil
  then show ?case by simp
next
  case (Cons row rs)
  from Cons.prems obtain m out' where m: "convertRow cols k row = Inr m"
    and rest: "convertRows cols (Suc k) rs = Inr out'" and out: "out = m # out'"
    by (auto split: sum.splits)
  from Cons.IH [OF rest] have len: "length out' = length rs"
    and nth: "\<forall>i<length rs. convertRow cols (Suc k + i) (rs ! i) = Inr (out' ! i)" by simp_all
  show ?case
  proof (intro conjI allI impI)
    show "length out = length (row # rs)" using len out by simp
  next
    fix i assume "i < length (row # rs)"
    then show "convertRow cols (k + i) ((row # rs) ! i) = Inr (out ! i)"
      using m nth out by (cases i) simp_all
  qed
qed

lemma convertRows_Inl:
  "convertRows cols k rs = Inl e \<Longrightarrow>
   \<exists>i<length rs. convertRow cols (k + i) (rs ! i) = Inl e
      \<and> (\<forall>j<i. \<exists>m. convertRow cols (k + j) (rs ! j) = Inr m)"
proof (induction rs arbitrary: k)
  case Nil
  then show ?case by simp
next
  case (Cons row rs)
  show ?case
  proof (cases "convertRow cols k row")
    case (Inl e')
    with Cons.prems have "e' = e" by simp
    with Inl show ?thesis by (intro exI [of _ 0]) simp
  next
    case (Inr m)
    with Cons.prems have "convertRows cols (Suc k) rs = Inl e"
      by (simp split: sum.splits)
    from Cons.IH [OF this] obtain i where i: "i < length rs"
      "convertRow cols (Suc k + i) (rs ! i) = Inl e"
      "\<forall>j<i. \<exists>m. convertRow cols (Suc k + j) (rs ! j) = Inr m" by blast
    have "\<forall>j<Suc i. \<exists>m. convertRow cols (k + j) ((row # rs) ! j) = Inr m"
    proof (intro allI impI)
      fix j assume "j < Suc i"
      then show "\<exists>m. convertRow cols (k + j) ((row # rs) ! j) = Inr m"
        using Inr i(3) by (cases j) simp_all
    qed
    with i show ?thesis by (intro exI [of _ "Suc i"]) simp
  qed
qed

lemma ToRows_rows:
  assumes "Success r" and "Result r = JArray (JObject queryResult # others)"
    and "map_of queryResult ''results'' = Some (JObject resultsData)"
    and "map_of resultsData ''rows'' = Some (JArray rowsRaw)"
  shows "ToRows rt r =
     (case convertRows (extractColumns resultsData) 0 rowsRaw of
        Inl err \<Rightarrow> Inl err
      | Inr rws \<Rightarrow> Inr (NewRows rt rws (extractColumns resultsData)))"
  using assms by (simp add: ToRows_def)


text \<open>
  Claim C8. For a Column Set of length \<open>N\<close> and a positional row, normalization rejects
  the row with the width error that names the row index, the actual and the expected
  width when the row's length differs from \<open>N\<close>, and accepts it otherwise, value \<open>j\<close> paired
  with column \<open>j\<close>. The rows are converted in order and the first failure ends the
  conversion, so the row is reached when the rows before it are accepted; when the row is
  accepted, a failure of the whole can only come from a later row.
\<close>

theorem positional_row_width:
  assumes "Success r" and "Result r = JArray (JObject queryResult # others)"
    and "map_of queryResult ''results'' = Some (JObject resultsData)"
    and "map_of resultsData ''rows'' = Some (JArray rowsRaw)"
    and "extractColumns resultsData = cols" and "distinct cols"
    and "i < length rowsRaw" and "rowsRaw ! i = JArray v"
    and "\<forall>k<i. \<exists>m. convertRow cols k (rowsRaw ! k) = Inr m"
  shows "(length v \<noteq> length cols \<longrightarrow>
            ToRows rt r = Inl (RowWidthMismatch i (length v) (length cols)))
       \<and> (length v = length cols \<longrightarrow>
            (case ToRows rt r of
               Inr R \<Rightarrow> length (rows R) = length rowsRaw
                  \<and> (\<forall>j<length cols. map_of (rows R ! i) (cols ! j) = Some (v ! j))
             | Inl e \<Rightarrow> \<exists>k. i < k \<and> k < length rowsRaw \<and> convertRow cols k (rowsRaw ! k) = Inl e))"
proof (intro conjI impI)
  note T = ToRows_rows [OF assms(1-4), of rt, unfolded assms(5)]
  {
    assume ne: "length v \<noteq> length cols"
    then have bad: "convertRow cols i (rowsRaw ! i) = Inl (RowWidthMismatch i (length v) (length cols))"
      using assms(8) by (simp add: convertRow_def)
    show "ToRows rt r = Inl (RowWidthMismatch i (length v) (length cols))"
    proof (cases "convertRows cols 0 rowsRaw")
      case (Inl e)
      from convertRows_Inl [OF this] obtain k where k: "k < length rowsRaw"
        "convertRow cols k (rowsRaw ! k) = Inl e"
        "\<forall>j<k. \<exists>m. convertRow cols j (rowsRaw ! j) = Inr m" by auto
      have "k = i"
      proof (rule ccontr)
        assume "k \<noteq> i"
        then consider "k < i" | "i < k" by linarith
        then show False
        proof cases
          case 1
          with assms(9) k(2) show False by auto
        next
          case 2
          with k(3) bad show False by auto
        qed
      qed
      with k(2) bad have "e = RowWidthMismatch i (length v) (length cols)" by simp
      with Inl T show ?thesis by simp
    next
      case (Inr out)
      from convertRows_Inr [OF this] assms(7) bad show ?thesis by auto
    qed
  }
  {
    assume eq: "length v = length cols"
    then have good: "convertRow cols i (rowsRaw ! i) = Inr (rowFromArray cols v)"
      using assms(8) by (simp add: convertRow_def)
    show "case ToRows rt r of
            Inr R \<Rightarrow> length (rows R) = length rowsRaw
              \<and> (\<forall>j<length cols. map_of (rows R ! i) (cols ! j) = Some (v ! j))
          | Inl e \<Rightarrow> \<exists>k. i < k \<and> k < length rowsRaw \<and> convertRow cols k (rowsRaw ! k) = Inl e"
    proof (cases "convertRows cols 0 rowsRaw")
      case (Inl e)
      from convertRows_Inl [OF this] obtain k where k: "k < length rowsRaw"
        "convertRow cols k (rowsRaw ! k) = Inl e"
        "\<forall>j<k. \<exists>m. convertRow cols j (rowsRaw ! j) = Inr m" by auto
      have "i < k"
      proof (rule ccontr)
        assume "\<not> i < k"
        then consider "k < i" | "k = i" by linarith
        then show False
        proof cases
          case 1
          with assms(9) k(2) show False by auto
        next
          case 2
          with k(2) good show False by simp
        qed
      qed
      with k Inl T show ?thesis by auto
    next
      case (Inr out)
      from convertRows_Inr [OF this] assms(7) good
      have len: "length out = length rowsRaw" and oi: "out ! i = rowFromArray cols v" by auto
      have "\<forall>j<length cols. map_of (out ! i) (cols ! j) = Some (v ! j)"
        using rowFromArray_nth [OF eq [symmetric] assms(6)] oi
        by (simp add: rowFromArray_def)
      with Inr T len show ?thesis by (simp add: NewRows_def)
    qed
  }
qed

theorem positional_row_width_witness:
  "ToRows exampleRuntime
     (okResponse [''id'', ''name''] [JArray [JNumber 1, JString ''Alice''], JArray [JNumber 2]])
     = Inl (RowWidthMismatch 1 1 2)
   \<and> ToRows exampleRuntime
     (okResponse [''id'', ''name''] [JArray [JNumber 1, JString ''Alice''], JArray [JNumber 2, JString ''Bob'']])
     = Inr \<lparr> rows = [[(''id'', JNumber 1), (''name'', JString ''Alice'')],
                       [(''id'', JNumber 2), (''name'', JString ''Bob'')]],
             columns = [''id'', ''name''], current = - 1, lastErr = None \<rparr>
   \<and> map_of [(''id'', JNumber 2), (''name'', JString ''Bob'')] ''id'' = Some (JNumber 2)
   \<and> map_of [(''id'', JNumber 2), (''name'', JString ''Bob'')] ''name'' = Some (JString ''Bob'')"
proof -
  let ?rows1 = "[JArray [JNumber 1, JString ''Alice''], JArray [JNumber 2]]"
  let ?rows2 = "[JArray [JNumber 1, JString ''Alice''], JArray [JNumber 2, JString ''Bob'']]"
  let ?rd1 = "[(''columns'', JArray (map JString [''id'', ''name''])), (''rows'', JArray ?rows1)]"
  let ?rd2 = "[(''columns'', JArray (map JString [''id'', ''name''])), (''rows'', JArray ?rows2)]"
  have c1: "extractColumns ?rd1 = [''id'', ''name'']" and c2: "extractColumns ?rd2 = [''id'', ''name'']"
    by (simp_all add: extractColumns_def List.map_filter_def)
  have b1: "\<forall>k<1. \<exists>m. convertRow [''id'', ''name''] k (?rows1 ! k) = Inr m"
    and b2: "\<forall>k<1. \<exists>m. convertRow [''id'', ''name''] k (?rows2 ! k) = Inr m"
    by (simp_all add: convertRow_def)
  have first: "ToRows exampleRuntime (okResponse [''id'', ''name''] ?rows1) = Inl (RowWidthMismatch 1 1 2)"
    using positional_row_width [of "okResponse [''id'', ''name''] ?rows1"
        "[(''results'', JObject ?rd1)]" "[]" ?rd1 ?rows1 "[''id'', ''name'']" 1
        "[JNumber 2]" exampleRuntime] c1 b1
    by (simp add: okResponse_def)
  have second: "ToRows exampleRuntime (okResponse [''id'', ''name''] ?rows2)
     = Inr \<lparr> rows = [[(''id'', JNumber 1), (''name'', JString ''Alice'')],
                       [(''id'', JNumber 2), (''name'', JString ''Bob'')]],
             columns = [''id'', ''name''], current = - 1, lastErr = None \<rparr>"
    by (simp add: okResponse_def ToRows_def extractColumns_def List.map_filter_def convertRow_def
        rowFromArray_def NewRows_def)
  have third: "\<forall>j<length [''id'', ''name''].
         map_of [(''id'', JNumber 2), (''name'', JString ''Bob'')] ([''id'', ''name''] ! j)
         = Some ([JNumber 2, JString ''Bob''] ! j)"
    using positional_row_width [of "okResponse [''id'', ''name''] ?rows2"
        "[(''results'', JObject ?rd2)]" "[]" ?rd2 ?rows2 "[''id'', ''name'']" 1
        "[JNumber 2, JString ''Bob'']" exampleRuntime] c2 b2
    unfolding second by (simp add: okResponse_def)
  from third have "map_of [(''id'', JNumber 2), (''name'', JString ''Bob'')] ([''id'', ''name''] ! 0)
         = Some ([JNumber 2, JString ''Bob''] ! 0)"
    and "map_of [(''id'', JNumber 2), (''name'', JString ''Bob'')] ([''id'', ''name''] ! 1)
         = Some ([JNumber 2, JString ''Bob''] ! 1)"
    by simp_all
  with first second show ?thesis by simp
qed


section \<open>Library facts\<close>

lemma sign_not_digit: "isDigit c \<Longrightarrow> c \<noteq> CHR ''+'' \<and> c \<noteq> CHR ''-''"
  by (auto simp: isDigit_def less_eq_char_def)

lemma ParseInt_digits:
  assumes "ds \<noteq> []" "list_all isDigit ds"
  shows "ParseInt ds = (if decimal ds < 2 ^ 63 then Some (decimal ds) else None)"
proof -
  from assms have "isDigit (hd ds)" by (cases ds) simp_all
  then have "hd ds \<noteq> CHR ''+''" "hd ds \<noteq> CHR ''-''" using sign_not_digit by blast+
  with assms show ?thesis by (simp add: ParseInt_def)
qed

lemma dropRune_digit:
  assumes "s \<noteq> []" "isDigit (hd s)"
  shows "dropRune spaceRunes s = None"
proof -
  from assms obtain c cs where s: "s = c # cs" and c: "isDigit c" by (cases s) auto
  have "\<forall>p \<in> set spaceRunes. \<not> isDigit (hd p)"
    by (simp add: spaceRunes_def isDigit_def less_eq_char_def)
  with c have "\<forall>p \<in> set spaceRunes. \<not> (p \<noteq> [] \<and> HasPrefix (c # cs) p)"
    by (metis HasPrefix_def hd_take list.sel(1) length_greater_0_conv)
  then have "find (\<lambda>p. p \<noteq> [] \<and> HasPrefix (c # cs) p) spaceRunes = None"
    by (simp add: find_None_iff)
  then show ?thesis by (simp add: dropRune_def s)
qed

lemma skipSpace_digit:
  assumes "s \<noteq> []" "isDigit (hd s)"
  shows "skipSpace s = Some s"
proof -
  from assms(2) have "hd s \<noteq> CHR 0x0A" by (auto simp: isDigit_def less_eq_char_def)
  with assms show ?thesis
    by (subst skipSpace.simps) (simp add: dropRune_digit)
qed

lemma Sscanf_d_digits:
  assumes "ds \<noteq> []" "list_all isDigit ds"
  shows "Sscanf_d ds = (if decimal ds < 2 ^ 63 then Some (decimal ds) else None)"
proof -
  from assms have h: "isDigit (hd ds)" by (cases ds) simp_all
  then have sg: "hd ds \<noteq> CHR ''+''" "hd ds \<noteq> CHR ''-''" using sign_not_digit by blast+
  from assms have tw: "takeWhile isDigit ds = ds"
    by (simp add: list_all_iff)
  have "Sscanf_d ds = ParseInt ds"
    using assms(1) sg by (simp add: Sscanf_d_def Let_def skipSpace_digit [OF assms(1) h] tw)
  then show ?thesis by (simp add: ParseInt_digits [OF assms])
qed


section \<open>The order of migrations\<close>

lemma isNumeric_iff:
  "CHR 0x0A \<notin> set (Id_m m) \<Longrightarrow> isNumeric m = numericPrefixed (Id_m m)"
  by (simp add: isNumeric_def NumberPrefixMatches_def FindStringSubmatch_numberPrefix_def
      numericPrefixed_def)

lemma VersionInt_numeric:
  assumes "isNumeric m"
  shows "VersionInt m =
    Some (if prefixValue (Id_m m) < 2 ^ 63 then prefixValue (Id_m m) else 0)"
proof -
  from assms have d: "Id_m m \<noteq> []" "isDigit (hd (Id_m m))" "CHR 0x0A \<notin> set (Id_m m)"
    by (auto simp: isNumeric_def NumberPrefixMatches_def FindStringSubmatch_numberPrefix_def
        split: if_splits)
  then have ne: "takeWhile isDigit (Id_m m) \<noteq> []" by (cases "Id_m m") simp_all
  have all: "list_all isDigit (takeWhile isDigit (Id_m m))"
    by (simp add: list_all_iff) (meson set_takeWhileD)
  from d show ?thesis
    by (simp add: VersionInt_def NumberPrefixMatches_def FindStringSubmatch_numberPrefix_def
        ParseInt_digits [OF ne all] prefixValue_def)
qed

lemma Less_agrees_in_range:
  assumes "CHR 0x0A \<notin> set (Id_m m)" "CHR 0x0A \<notin> set (Id_m other)"
    and "prefixValue (Id_m m) < 2 ^ 63" "prefixValue (Id_m other) < 2 ^ 63"
  shows "Less m other = Less_spec (Id_m m) (Id_m other)"
  using assms
  by (simp add: Less_def Less_spec_def isNumeric_iff [symmetric] VersionInt_numeric)


text \<open>
  Claim C4. \<open>Less\<close> compares two numeric-prefixed ids by the integer value of the prefix,
  with the lexical order of the ids when the values are equal, places a numeric-prefixed
  id before any other, and compares two other ids lexically. The lemma above has it for
  ids without newline whose prefix is below \<open>2^63\<close>. At a longer prefix the code parts
  from the claim: \<open>strconv.ParseInt\<close> returns a range error, \<open>VersionInt\<close> returns 0, and
  the id with the prefix 9223372036854775808 is \<open>Less\<close> than the id with the prefix 1.
\<close>

theorem Less_prefix_beyond_int64:
  "Less (migration ''9223372036854775808_a'') (migration ''1_b'')
   \<and> VersionInt (migration ''9223372036854775808_a'') = Some 0
   \<and> prefixValue ''9223372036854775808_a'' = 9223372036854775808
   \<and> prefixValue ''1_b'' = 1
   \<and> \<not> Less_spec ''9223372036854775808_a'' ''1_b''"
  by (simp add: Less_def isNumeric_def NumberPrefixMatches_def FindStringSubmatch_numberPrefix_def
      VersionInt_def migration_def isDigit_def less_eq_char_def ParseInt_def decimal_def digitVal_def
      Less_spec_def numericPrefixed_def prefixValue_def)


text \<open>The three ids of the claim in sorted order, and the two ids above.\<close>

lemma sort_example:
  "map Id_m (sortById [migration ''10_x'', migration ''2_y'', migration ''alpha'']) = [''2_y'', ''10_x'', ''alpha'']
   \<and> map Id_m (sortById [migration ''alpha'', migration ''10_x'', migration ''2_y'']) = [''2_y'', ''10_x'', ''alpha'']
   \<and> map Id_m (sortById [migration ''1_b'', migration ''9223372036854775808_a'']) = [''9223372036854775808_a'', ''1_b'']"
  by (simp add: sortById_def Less_def isNumeric_def NumberPrefixMatches_def FindStringSubmatch_numberPrefix_def
      VersionInt_def migration_def isDigit_def less_eq_char_def less_char_def ParseInt_def decimal_def digitVal_def)


text \<open>\<open>Less\<close> is a strict weak order, and the sort by it gives ascending sort order.\<close>

lemma Less_version:
  "Less m other =
     (if isNumeric m \<and> isNumeric other then
        (if version m \<noteq> version other then version m < version other else Id_m m < Id_m other)
      else if isNumeric m then True
      else if isNumeric other then False
      else Id_m m < Id_m other)"
  by (auto simp: Less_def version_def VersionInt_numeric)

lemma Less_asym: "Less a b \<Longrightarrow> \<not> Less b a"
  by (auto simp: Less_version split: if_splits)

lemma not_Less_trans: "\<not> Less b a \<Longrightarrow> \<not> Less c b \<Longrightarrow> \<not> Less c a"
  by (auto simp: Less_version split: if_splits)

lemma set_insertById: "set (insertById m xs) = insert m (set xs)"
  by (induction xs) auto

lemma ascending_insertById: "ascending xs \<Longrightarrow> ascending (insertById m xs)"
proof (induction xs)
  case Nil
  show ?case by (simp add: ascending_def)
next
  case (Cons x xs)
  from Cons.prems have tail: "ascending xs" and head: "\<forall>y \<in> set xs. \<not> Less y x"
    by (simp_all add: ascending_def)
  show ?case
  proof (cases "Less x m")
    case True
    from Cons.IH [OF tail] have "ascending (insertById m xs)" .
    moreover have "\<forall>y \<in> set (insertById m xs). \<not> Less y x"
      using head True Less_asym by (auto simp: set_insertById)
    ultimately show ?thesis using True by (simp add: ascending_def)
  next
    case False
    have "\<forall>y \<in> set xs. \<not> Less y m"
      using head False not_Less_trans by blast
    with False Cons.prems show ?thesis by (simp add: ascending_def)
  qed
qed

lemma ascending_sortById: "ascending (sortById xs)"
  by (induction xs) (simp_all add: sortById_def ascending_insertById, simp add: ascending_def)

lemma set_sortById: "set (sortById xs) = set xs"
  by (induction xs) (simp_all add: sortById_def set_insertById)

lemma FindMigrations_memory_ascending:
  "FindMigrations (MemoryMigrationSource xs) = Inr known \<Longrightarrow> ascending known \<and> set known = set xs"
  by (auto simp: ascending_sortById set_sortById)

lemma ascending_filter: "ascending xs \<Longrightarrow> ascending (filter P xs)"
  by (simp add: ascending_def sorted_wrt_filter)


section \<open>Scans\<close>

text \<open>
  Claim C2, as stated: for a cursor of zero rows and every destination collection,
  \<open>StructScanAll\<close> succeeds and leaves an empty collection that is not nil. It fails for
  the nil slice, the destination of the code's own example \<open>var users []User\<close>: the loop
  body never runs, nothing is assigned, and the slice stays nil.
\<close>

theorem StructScanAll_nil_destination:
  "StructScanAll exampleRuntime (NewRows exampleRuntime [] []) (SPointerToSlice userZero None)
     = (None, \<lparr> rows = [], columns = [], current = 0, lastErr = None \<rparr>, SPointerToSlice userZero None)
   \<and> SPointerToSlice userZero None \<noteq> SPointerToSlice userZero (Some [])"
proof -
  have "Next (NewRows exampleRuntime [] []) = (False, \<lparr> rows = [], columns = [], current = 0, lastErr = None \<rparr>)"
    by (simp add: Next_def NewRows_def)
  then have "StructScanAll_loop exampleRuntime userZero (NewRows exampleRuntime [] []) None 0
      = (None, \<lparr> rows = [], columns = [], current = 0, lastErr = None \<rparr>, None)"
    by (subst StructScanAll_loop.simps) simp
  then show ?thesis by (simp add: StructScanAll_def)
qed


text \<open>
  Claim C2, amended: for a cursor of zero rows and every destination that is a pointer to
  a slice, \<open>StructScanAll\<close> succeeds, advances the position once and leaves the slice as it
  was: a nil slice stays nil, an empty slice stays empty, and elements already there stay.
\<close>

theorem StructScanAll_no_rows:
  assumes "rows r = []" and "- 1 \<le> current r"
  shows "StructScanAll rt r (SPointerToSlice zero sl)
         = (None, r\<lparr>current := current r + 1\<rparr>, SPointerToSlice zero sl)"
proof -
  from assms have "Next r = (False, r\<lparr>current := current r + 1\<rparr>)"
    by (simp add: Next_def)
  then have "StructScanAll_loop rt zero r sl 0 = (None, r\<lparr>current := current r + 1\<rparr>, sl)"
    by (subst StructScanAll_loop.simps) simp
  then show ?thesis by (simp add: StructScanAll_def)
qed

theorem StructScanAll_no_rows_witness:
  "rows (NewRows exampleRuntime [] [''id'', ''name'']) = []
   \<and> - 1 \<le> current (NewRows exampleRuntime [] [''id'', ''name''])
   \<and> StructScanAll exampleRuntime (NewRows exampleRuntime [] [''id'', ''name''])
        (SPointerToSlice userZero (Some []))
      = (None, \<lparr> rows = [], columns = [''id'', ''name''], current = 0, lastErr = None \<rparr>,
         SPointerToSlice userZero (Some []))"
  using StructScanAll_no_rows [of "NewRows exampleRuntime [] [''id'', ''name'']" exampleRuntime userZero "Some []"]
  by (simp add: NewRows_def)


text \<open>
  Claim C3, as stated: for an integer destination of any width and a string, the string
  is parsed in base 10 and assigned, and the coercion fails exactly when the string does
  not parse. It fails for a width that the type switch does not list: a pointer to an
  \<open>int32\<close> reaches the end of \<open>convertAssign\<close>, which returns nil for any pointer; the
  string \<open>abc\<close> gives no error.
\<close>

theorem string_into_int32:
  "convertAssign exampleRuntime (POther ''*int32'') (JString ''abc'') = (None, POther ''*int32'')
   \<and> ParseInt ''abc'' = None"
  by (simp add: ParseInt_def isDigit_def less_eq_char_def)


text \<open>
  Claim C3, amended: for a destination of type \<open>int\<close> and every string, the string is
  scanned as a base-10 integer (white space before it and anything after its digits are
  passed over) and the integer is assigned, and the coercion fails with the conversion
  error exactly when that scan fails; in particular a string of digits with a value below
  \<open>2^63\<close> is assigned as that value. A pointer to an integer type that the type switch does
  not list is left as it is, with no error.
\<close>

theorem string_into_int:
  "convertAssign rt (PInt d) (JString s)
     = (case Sscanf_d s of
          Some i \<Rightarrow> (None, PInt i)
        | None \<Rightarrow> (Some (CannotConvert ''string'' ''int''), PInt d))
   \<and> (ds \<noteq> [] \<and> list_all isDigit ds \<and> decimal ds < 2 ^ 63
        \<longrightarrow> convertAssign rt (PInt d) (JString ds) = (None, PInt (decimal ds)))
   \<and> convertAssign rt (POther ty) (JString s) = (None, POther ty)"
  by (simp add: Sscanf_d_digits split: option.splits)

theorem string_into_int_witness:
  "''25'' \<noteq> [] \<and> list_all isDigit ''25'' \<and> decimal ''25'' < 2 ^ 63
   \<and> convertAssign exampleRuntime (PInt 7) (JString ''25'') = (None, PInt 25)"
proof -
  have h: "''25'' \<noteq> [] \<and> list_all isDigit ''25'' \<and> decimal ''25'' < 2 ^ 63"
    by (simp add: isDigit_def less_eq_char_def decimal_def digitVal_def)
  have d: "decimal ''25'' = 25"
    by (simp add: decimal_def digitVal_def)
  from h string_into_int [of exampleRuntime 7 "''25''" "''25''" "''*int32''"]
  have "convertAssign exampleRuntime (PInt 7) (JString ''25'') = (None, PInt (decimal ''25''))"
    by blast
  with h d show ?thesis by simp
qed


text \<open>The case of \<open>int64\<close> in the type switch has no branch for a string.\<close>

lemma string_into_int64:
  "convertAssign rt (PInt64 d) (JString s) = (Some (CannotConvert ''string'' ''int64''), PInt64 d)"
  by simp

lemma scanColumns_wire:
  "\<forall>c \<in> set cols. columnValue row c = columnValue row' c \<Longrightarrow>
   scanColumns rt row k cols ds = scanColumns rt row' k cols ds"
proof (induction cols arbitrary: ds k)
  case Nil
  then show ?case by simp
next
  case (Cons c cols)
  show ?case
  proof (cases ds)
    case Nil
    then show ?thesis by simp
  next
    case (Cons d ds')
    from Cons.prems have same: "columnValue row c = columnValue row' c"
      and rest: "\<forall>c \<in> set cols. columnValue row c = columnValue row' c"
      by simp_all
    from Cons.IH [OF rest]
    have "scanColumns rt row (Suc k) cols ds' = scanColumns rt row' (Suc k) cols ds'" .
    with same Cons show ?thesis by (simp split: prod.splits option.splits)
  qed
qed

lemma scanColumns_error:
  "length ds = length cols \<Longrightarrow> fst (scanColumns rt row k cols ds) = Some err \<Longrightarrow>
   \<exists>j<length cols. \<exists>e. err = ScanError (k + j) (cols ! j) e
      \<and> fst (convertAssign rt (ds ! j) (columnValue row (cols ! j))) = Some e"
proof (induction cols arbitrary: ds k)
  case Nil
  then show ?case by simp
next
  case (Cons c cols)
  then obtain d ds' where ds: "ds = d # ds'" by (cases ds) auto
  obtain e d' where ca: "convertAssign rt d (columnValue row c) = (e, d')" by (cases "convertAssign rt d (columnValue row c)")
  show ?case
  proof (cases e)
    case None
    with ca Cons.prems ds have "fst (scanColumns rt row (Suc k) cols ds') = Some err"
      by (simp split: prod.splits)
    with Cons.IH [of ds' "Suc k"] Cons.prems ds
    obtain j e' where "j < length cols" "err = ScanError (Suc k + j) (cols ! j) e'"
      "fst (convertAssign rt (ds' ! j) (columnValue row (cols ! j))) = Some e'" by auto
    then show ?thesis using ds by (intro exI [of _ "Suc j"]) simp
  next
    case (Some e')
    with ca Cons.prems ds have "err = ScanError k c e'"
      by simp
    with Some ca ds show ?thesis by (intro exI [of _ 0]) simp
  qed
qed

lemma scanColumns_value:
  "length ds = length cols \<Longrightarrow> i < length cols \<Longrightarrow>
   (\<forall>j c e. fst (scanColumns rt row k cols ds) = Some (ScanError j c e) \<longrightarrow> k + i < j) \<Longrightarrow>
   snd (scanColumns rt row k cols ds) ! i = snd (convertAssign rt (ds ! i) (columnValue row (cols ! i)))"
proof (induction cols arbitrary: ds k i)
  case Nil
  then show ?case by simp
next
  case (Cons c cols)
  then obtain d ds' where ds: "ds = d # ds'" by (cases ds) auto
  obtain e d' where ca: "convertAssign rt d (columnValue row c) = (e, d')" by (cases "convertAssign rt d (columnValue row c)")
  show ?case
  proof (cases e)
    case (Some e')
    with ca ds have "fst (scanColumns rt row k (c # cols) ds) = Some (ScanError k c e')"
      by simp
    with Cons.prems(3) have "k + i < k" by blast
    then show ?thesis by simp
  next
    case None
    obtain e2 ds2 where rec: "scanColumns rt row (Suc k) cols ds' = (e2, ds2)"
      by (cases "scanColumns rt row (Suc k) cols ds'")
    with None ca ds have whole: "scanColumns rt row k (c # cols) ds = (e2, d' # ds2)"
      by simp
    show ?thesis
    proof (cases i)
      case 0
      with whole ca ds show ?thesis by simp
    next
      case (Suc i')
      have "\<forall>j c e. fst (scanColumns rt row (Suc k) cols ds') = Some (ScanError j c e) \<longrightarrow> Suc k + i' < j"
        using Cons.prems(3) whole rec Suc by simp
      with Cons.IH [of ds' i' "Suc k"] Cons.prems(1,2) ds Suc
      have "snd (scanColumns rt row (Suc k) cols ds') ! i'
          = snd (convertAssign rt (ds' ! i') (columnValue row (cols ! i')))" by simp
      with whole rec ds Suc show ?thesis by simp
    qed
  qed
qed

lemma convertAssign_null:
  "nullValue d = Some z \<Longrightarrow> convertAssign rt d JNull = (None, z)"
  by (cases d) auto


text \<open>
  Claim C10. When the current row has no key for a column of the Column Set, \<open>Scan\<close> does
  not fail on that column: it goes on as if the row held a null there, and a destination
  that has a value for null (the empty string, zero, false or nil) is assigned that value.
  The scan is the same as on the row with the column added as null; no error is reported
  for the column; and when no column before it fails, its destination holds the null value
  after the call.
\<close>

theorem Scan_missing_column:
  assumes "0 \<le> current r" and "current r < int (length (rows r))"
    and "length ds = length (columns r)" and "i < length (columns r)"
    and "map_of (rows r ! nat (current r)) (columns r ! i) = None"
  shows "Scan rt r ds
         = Scan rt (r\<lparr>rows := (rows r)[nat (current r) :=
                        (columns r ! i, JNull) # rows r ! nat (current r)]\<rparr>) ds
     \<and> (\<forall>z. nullValue (ds ! i) = Some z \<longrightarrow>
          (\<forall>c e. fst (Scan rt r ds) \<noteq> Some (ScanError i c e))
          \<and> ((\<forall>j c e. fst (Scan rt r ds) = Some (ScanError j c e) \<longrightarrow> i < j)
               \<longrightarrow> snd (Scan rt r ds) ! i = z))"
proof -
  let ?row = "rows r ! nat (current r)"
  let ?c = "columns r ! i"
  from assms(1,2) have inr: "nat (current r) < length (rows r)" by simp
  have S: "Scan rt r ds = scanColumns rt ?row 0 (columns r) ds"
    using assms(1,2,3) by (simp add: Scan_def)
  have wire: "columnValue ?row ?c = JNull"
    using assms(5) by (simp add: columnValue_def)
  have "\<forall>c \<in> set (columns r). columnValue ?row c = columnValue ((?c, JNull) # ?row) c"
    using assms(5) by (simp add: columnValue_def)
  then have "scanColumns rt ?row 0 (columns r) ds = scanColumns rt ((?c, JNull) # ?row) 0 (columns r) ds"
    by (rule scanColumns_wire)
  moreover have "Scan rt (r\<lparr>rows := (rows r)[nat (current r) := (?c, JNull) # ?row]\<rparr>) ds
      = scanColumns rt ((?c, JNull) # ?row) 0 (columns r) ds"
    using assms(1,2,3) inr by (simp add: Scan_def)
  ultimately have first: "Scan rt r ds
      = Scan rt (r\<lparr>rows := (rows r)[nat (current r) := (?c, JNull) # ?row]\<rparr>) ds"
    using S by simp
  have second: "(\<forall>c e. fst (Scan rt r ds) \<noteq> Some (ScanError i c e))
      \<and> ((\<forall>j c e. fst (Scan rt r ds) = Some (ScanError j c e) \<longrightarrow> i < j)
            \<longrightarrow> snd (Scan rt r ds) ! i = z)"
    if z: "nullValue (ds ! i) = Some z" for z
  proof (intro conjI allI impI)
    fix c e
    show "fst (Scan rt r ds) \<noteq> Some (ScanError i c e)"
    proof
      assume "fst (Scan rt r ds) = Some (ScanError i c e)"
      with S scanColumns_error [OF assms(3), of rt ?row 0 "ScanError i c e"]
      obtain e' where "fst (convertAssign rt (ds ! i) (columnValue ?row ?c)) = Some e'"
        by auto
      with wire convertAssign_null [OF z, of rt] show False by simp
    qed
  next
    assume "\<forall>j c e. fst (Scan rt r ds) = Some (ScanError j c e) \<longrightarrow> i < j"
    with S scanColumns_value [OF assms(3,4), of rt ?row 0]
    have "snd (Scan rt r ds) ! i = snd (convertAssign rt (ds ! i) (columnValue ?row ?c))"
      by simp
    with wire convertAssign_null [OF z, of rt] show "snd (Scan rt r ds) ! i = z" by simp
  qed
  from first second show ?thesis by blast
qed

theorem Scan_missing_column_witness:
  "0 \<le> current exampleRows \<and> current exampleRows < int (length (rows exampleRows))
   \<and> length [PString ''x'', PInt 7, PAny (JBool True)] = length (columns exampleRows)
   \<and> 1 < length (columns exampleRows)
   \<and> map_of (rows exampleRows ! nat (current exampleRows)) (columns exampleRows ! 1) = None
   \<and> nullValue ([PString ''x'', PInt 7, PAny (JBool True)] ! 1) = Some (PInt 0)
   \<and> Scan exampleRuntime exampleRows [PString ''x'', PInt 7, PAny (JBool True)]
      = (None, [PString ''Alice'', PInt 0, PAny JNull])"
proof -
  have h: "0 \<le> current exampleRows" "current exampleRows < int (length (rows exampleRows))"
    "length [PString ''x'', PInt 7, PAny (JBool True)] = length (columns exampleRows)"
    "1 < length (columns exampleRows)"
    "map_of (rows exampleRows ! nat (current exampleRows)) (columns exampleRows ! 1) = None"
    by (simp_all add: exampleRows_def)
  have n: "nullValue ([PString ''x'', PInt 7, PAny (JBool True)] ! 1) = Some (PInt 0)"
    by simp
  have ev: "Scan exampleRuntime exampleRows [PString ''x'', PInt 7, PAny (JBool True)]
      = (None, [PString ''Alice'', PInt 0, PAny JNull])"
    by (simp add: Scan_def exampleRows_def columnValue_def)
  from Scan_missing_column [OF h, of exampleRuntime] n
  have "\<forall>c e. fst (Scan exampleRuntime exampleRows [PString ''x'', PInt 7, PAny (JBool True)])
      \<noteq> Some (ScanError 1 c e)"
    by blast
  with h n ev show ?thesis by simp
qed

section \<open>The parser\<close>

lemma fold_statements:
  "fold (\<lambda>stmt p.
            if TrimSpace stmt = [] then p
            else if dir = Up then p\<lparr>UpStatements := UpStatements p @ [TrimSpace stmt]\<rparr>
            else p\<lparr>DownStatements := DownStatements p @ [TrimSpace stmt]\<rparr>) xs p
   = (if dir = Up
      then p\<lparr>UpStatements := UpStatements p @ filter (\<lambda>stmt. stmt \<noteq> []) (map TrimSpace xs)\<rparr>
      else p\<lparr>DownStatements := DownStatements p @ filter (\<lambda>stmt. stmt \<noteq> []) (map TrimSpace xs)\<rparr>)"
  by (induction xs arbitrary: p) auto

lemma appendStatement_eq:
  "appendStatement p dir sql =
     (if dir = Up then p\<lparr>UpStatements := UpStatements p @ statementsOf sql\<rparr>
      else p\<lparr>DownStatements := DownStatements p @ statementsOf sql\<rparr>)"
  unfolding appendStatement_def statementsOf_def splitSQLStatements_def by (rule fold_statements)

lemma TrimSpace_Nil: "TrimSpace [] = []"
proof -
  have "dropRune pats [] = None" for pats
    by (auto simp: dropRune_def find_None_iff HasPrefix_def split: option.splits)
  then have "trimLeftWith pats [] = []" for pats
    by (subst trimLeftWith.simps) simp
  then show ?thesis by (simp add: TrimSpace_def)
qed

lemma statementsOf_Nil: "statementsOf [] = []"
  by (simp add: statementsOf_def TrimSpace_Nil)

lemma flush_eq:
  "flush p dir buf =
     (if dir = Up then p\<lparr>UpStatements := UpStatements p @ statementsOf buf\<rparr>
      else p\<lparr>DownStatements := DownStatements p @ statementsOf buf\<rparr>)"
  by (cases "buf = []") (simp_all add: flush_def appendStatement_eq statementsOf_Nil)

lemma flush_combine: "flush p dir buf = combine p (flush emptyParsed dir buf)"
  by (simp add: flush_eq combine_def emptyParsed_def)

lemma combine_assoc: "combine (combine p q) r = combine p (combine q r)"
  by (simp add: combine_def)

lemma combine_flagUp:
  "(combine p q)\<lparr>DisableTransactionUp := True\<rparr> = combine p (q\<lparr>DisableTransactionUp := True\<rparr>)"
  by (simp add: combine_def)

lemma combine_flagDown:
  "(combine p q)\<lparr>DisableTransactionDown := True\<rparr> = combine p (q\<lparr>DisableTransactionDown := True\<rparr>)"
  by (simp add: combine_def)

lemma parseLines_combine:
  "parseLines p dir buf ls = combine p (parseLines emptyParsed dir buf ls)"
proof (induction ls arbitrary: p dir buf)
  case Nil
  show ?case by (simp add: flush_combine [of p])
next
  case (Cons line ls)
  note IH = Cons.IH
  consider (up) "HasPrefix line ''-- +migrate Up''"
    | (down) "\<not> HasPrefix line ''-- +migrate Up''" "HasPrefix line ''-- +migrate Down''"
    | (other) "\<not> HasPrefix line ''-- +migrate Up''" "\<not> HasPrefix line ''-- +migrate Down''"
    by blast
  then show ?case
  proof cases
    case up
    let ?q = "if Contains line ''notransaction''
              then (flush emptyParsed dir buf)\<lparr>DisableTransactionUp := True\<rparr>
              else flush emptyParsed dir buf"
    have "parseLines p dir buf (line # ls) = parseLines (combine p ?q) Up [] ls"
      using up by (simp add: flush_combine [of p] combine_flagUp)
    also have "\<dots> = combine (combine p ?q) (parseLines emptyParsed Up [] ls)"
      by (rule IH)
    also have "\<dots> = combine p (combine ?q (parseLines emptyParsed Up [] ls))"
      by (rule combine_assoc)
    also have "combine ?q (parseLines emptyParsed Up [] ls) = parseLines ?q Up [] ls"
      by (rule IH [symmetric])
    also have "parseLines ?q Up [] ls = parseLines emptyParsed dir buf (line # ls)"
      using up by simp
    finally show ?thesis .
  next
    case down
    let ?q = "if Contains line ''notransaction''
              then (flush emptyParsed dir buf)\<lparr>DisableTransactionDown := True\<rparr>
              else flush emptyParsed dir buf"
    have "parseLines p dir buf (line # ls) = parseLines (combine p ?q) Down [] ls"
      using down by (simp add: flush_combine [of p] combine_flagDown)
    also have "\<dots> = combine (combine p ?q) (parseLines emptyParsed Down [] ls)"
      by (rule IH)
    also have "\<dots> = combine p (combine ?q (parseLines emptyParsed Down [] ls))"
      by (rule combine_assoc)
    also have "combine ?q (parseLines emptyParsed Down [] ls) = parseLines ?q Down [] ls"
      by (rule IH [symmetric])
    also have "parseLines ?q Down [] ls = parseLines emptyParsed dir buf (line # ls)"
      using down by simp
    finally show ?thesis .
  next
    case other
    define b where "b = (if HasPrefix line ''-- +migrate StatementBegin''
        \<or> HasPrefix line ''-- +migrate StatementEnd'' then buf
      else (if length buf > 0 then buf @ [CHR 0x0A] else buf) @ line)"
    have step: "parseLines q dir buf (line # ls) = parseLines q dir b ls" for q
      using other by (simp add: b_def)
    have "parseLines p dir buf (line # ls) = parseLines p dir b ls"
      by (rule step)
    also have "\<dots> = combine p (parseLines emptyParsed dir b ls)"
      by (rule IH)
    also have "parseLines emptyParsed dir b ls = parseLines emptyParsed dir buf (line # ls)"
      by (rule step [symmetric])
    finally show ?thesis .
  qed
qed

lemma parseLines_before_direction:
  "\<forall>l \<in> set pre. \<not> isDirectionLine l \<Longrightarrow>
   parseLines p dir buf (pre @ rest) = parseLines p dir (accumulate buf pre) rest"
proof (induction pre arbitrary: buf)
  case Nil
  show ?case by (simp add: accumulate_def)
next
  case (Cons l pre)
  from Cons.prems have l: "\<not> HasPrefix l ''-- +migrate Up''" "\<not> HasPrefix l ''-- +migrate Down''"
    and rest: "\<forall>l \<in> set pre. \<not> isDirectionLine l"
    by (simp_all add: isDirectionLine_def)
  show ?case
  proof (cases "isBlockLine l")
    case True
    then have "parseLines p dir buf ((l # pre) @ rest) = parseLines p dir buf (pre @ rest)"
      using l by (auto simp: isBlockLine_def)
    also have "\<dots> = parseLines p dir (accumulate buf pre) rest"
      by (rule Cons.IH [OF rest])
    also have "accumulate buf pre = accumulate buf (l # pre)"
      using True by (simp add: accumulate_def)
    finally show ?thesis .
  next
    case False
    let ?b = "(if length buf > 0 then buf @ [CHR 0x0A] else buf) @ l"
    from False have "parseLines p dir buf ((l # pre) @ rest) = parseLines p dir ?b (pre @ rest)"
      using l by (simp add: isBlockLine_def)
    also have "\<dots> = parseLines p dir (accumulate ?b pre) rest"
      by (rule Cons.IH [OF rest])
    also have "accumulate ?b pre = accumulate buf (l # pre)"
      using False by (simp add: accumulate_def)
    finally show ?thesis .
  qed
qed

lemma parseLines_at_direction:
  assumes "rest = [] \<or> isDirectionLine (hd rest)"
  shows "parseLines emptyParsed Up buf rest
         = combine (flush emptyParsed Up buf) (parseLines emptyParsed Up [] rest)"
proof (cases rest)
  case Nil
  then show ?thesis
    by (simp add: flush_eq statementsOf_Nil combine_def emptyParsed_def)
next
  case (Cons d ls)
  with assms have d: "isDirectionLine d" by simp
  show ?thesis
  proof (cases "HasPrefix d ''-- +migrate Up''")
    case True
    let ?f = "\<lambda>p. if Contains d ''notransaction'' then p\<lparr>DisableTransactionUp := True\<rparr> else p"
    have "parseLines emptyParsed Up buf (d # ls) = parseLines (?f (flush emptyParsed Up buf)) Up [] ls"
      using True by simp
    also have "\<dots> = combine (?f (flush emptyParsed Up buf)) (parseLines emptyParsed Up [] ls)"
      by (rule parseLines_combine)
    also have "?f (flush emptyParsed Up buf) = combine (flush emptyParsed Up buf) (?f emptyParsed)"
      by (simp add: combine_def emptyParsed_def flush_eq)
    also have "combine (combine (flush emptyParsed Up buf) (?f emptyParsed)) (parseLines emptyParsed Up [] ls)
        = combine (flush emptyParsed Up buf) (combine (?f emptyParsed) (parseLines emptyParsed Up [] ls))"
      by (rule combine_assoc)
    also have "combine (?f emptyParsed) (parseLines emptyParsed Up [] ls) = parseLines (?f emptyParsed) Up [] ls"
      by (rule parseLines_combine [symmetric])
    also have "parseLines (?f emptyParsed) Up [] ls = parseLines emptyParsed Up [] (d # ls)"
      using True by (simp add: flush_def)
    finally show ?thesis using Cons by simp
  next
    case False
    with d have dn: "HasPrefix d ''-- +migrate Down''" by (simp add: isDirectionLine_def)
    let ?f = "\<lambda>p. if Contains d ''notransaction'' then p\<lparr>DisableTransactionDown := True\<rparr> else p"
    have "parseLines emptyParsed Up buf (d # ls) = parseLines (?f (flush emptyParsed Up buf)) Down [] ls"
      using False dn by simp
    also have "\<dots> = combine (?f (flush emptyParsed Up buf)) (parseLines emptyParsed Down [] ls)"
      by (rule parseLines_combine)
    also have "?f (flush emptyParsed Up buf) = combine (flush emptyParsed Up buf) (?f emptyParsed)"
      by (simp add: combine_def emptyParsed_def flush_eq)
    also have "combine (combine (flush emptyParsed Up buf) (?f emptyParsed)) (parseLines emptyParsed Down [] ls)
        = combine (flush emptyParsed Up buf) (combine (?f emptyParsed) (parseLines emptyParsed Down [] ls))"
      by (rule combine_assoc)
    also have "combine (?f emptyParsed) (parseLines emptyParsed Down [] ls) = parseLines (?f emptyParsed) Down [] ls"
      by (rule parseLines_combine [symmetric])
    also have "parseLines (?f emptyParsed) Down [] ls = parseLines emptyParsed Up [] (d # ls)"
      using False dn by (simp add: flush_def)
    finally show ?thesis using Cons by simp
  qed
qed


lemma rawLines_line:
  "CHR 0x0A \<notin> set l \<Longrightarrow> rawLines (l @ CHR 0x0A # rest) = l # rawLines rest"
  by (induction l) auto

lemma scanLines_short:
  "\<forall>l \<in> set (rawLines text). length l < 65536 \<Longrightarrow> scanLines text = map dropCR (rawLines text)"
  by (simp add: scanLines_def MaxScanTokenSize_def takeWhile_eq_all_conv [THEN iffD2])

text \<open>
  In a text whose lines are all shorter than 65536 bytes, the lines before the first
  direction directive, which are all the lines of a text without direction directive,
  are accumulated and flushed into the Up statement list, since the parser starts in the
  direction Up: the parsed migration is the parse of the lines from the first direction
  directive on, with the statements of the accumulated buffer put in front of its Up
  statements; without such a directive the parse of the rest is empty.
\<close>

lemma short_lines_before_first_direction_go_up:
  assumes "\<forall>l \<in> set (rawLines text). length l < 65536"
  shows "parseMigration text =
     Inr \<lparr> UpStatements =
             statementsOf (accumulate []
               (takeWhile (\<lambda>l. \<not> isDirectionLine l) (map dropCR (rawLines text))))
             @ UpStatements (parseLines emptyParsed Up []
                 (dropWhile (\<lambda>l. \<not> isDirectionLine l) (map dropCR (rawLines text)))),
           DownStatements =
             DownStatements (parseLines emptyParsed Up []
               (dropWhile (\<lambda>l. \<not> isDirectionLine l) (map dropCR (rawLines text)))),
           DisableTransactionUp =
             DisableTransactionUp (parseLines emptyParsed Up []
               (dropWhile (\<lambda>l. \<not> isDirectionLine l) (map dropCR (rawLines text)))),
           DisableTransactionDown =
             DisableTransactionDown (parseLines emptyParsed Up []
               (dropWhile (\<lambda>l. \<not> isDirectionLine l) (map dropCR (rawLines text)))) \<rparr>
   \<and> parseLines emptyParsed Up [] [] = emptyParsed"
proof -
  let ?ls = "map dropCR (rawLines text)"
  let ?pre = "takeWhile (\<lambda>l. \<not> isDirectionLine l) ?ls"
  let ?rest = "dropWhile (\<lambda>l. \<not> isDirectionLine l) ?ls"
  let ?tail = "parseLines emptyParsed Up [] ?rest"
  have lines: "scanLines text = ?ls"
    by (rule scanLines_short [OF assms])
  have pre: "\<forall>l \<in> set ?pre. \<not> isDirectionLine l"
    by (auto dest: set_takeWhileD)
  have rest: "?rest = [] \<or> isDirectionLine (hd ?rest)"
    using hd_dropWhile [of "\<lambda>l. \<not> isDirectionLine l" ?ls] by auto
  have "parseLines emptyParsed Up [] ?ls = parseLines emptyParsed Up [] (?pre @ ?rest)"
    by simp
  also have "\<dots> = parseLines emptyParsed Up (accumulate [] ?pre) ?rest"
    by (rule parseLines_before_direction [OF pre])
  also have "\<dots> = combine (flush emptyParsed Up (accumulate [] ?pre)) ?tail"
    by (rule parseLines_at_direction [OF rest])
  finally have "parseLines emptyParsed Up [] ?ls
      = combine (flush emptyParsed Up (accumulate [] ?pre)) ?tail" .
  moreover have "parseLines emptyParsed Up [] [] = emptyParsed"
    by (simp add: flush_def)
  ultimately show ?thesis
    unfolding parseMigration_def lines
    by (simp add: combine_def flush_eq emptyParsed_def)
qed

text \<open>
  Claim C9. For every migration text, the lines before the first direction directive
  (all the lines of a text without directive) are accumulated and flushed into the Up
  statement list. The code parts from it at a line of 65536 bytes or more: the line
  scanner stops there with \<open>ErrTooLong\<close>, the loop ends, and \<open>scanner.Err()\<close> is never
  read. Of the three lines of the text below, none a directive, the first alone reaches
  the Up statements; the long line and the line after it are dropped, and
  \<open>parseMigration\<close> returns no error.
\<close>

theorem long_line_ends_the_parse:
  "parseMigration (''SELECT 1;'' @ [CHR 0x0A] @ replicate 65536 (CHR ''x'') @ [CHR 0x0A] @ ''SELECT 2;'')
     = Inr \<lparr> UpStatements = [''SELECT 1''], DownStatements = [],
             DisableTransactionUp = False, DisableTransactionDown = False \<rparr>
   \<and> rawLines (''SELECT 1;'' @ [CHR 0x0A] @ replicate 65536 (CHR ''x'') @ [CHR 0x0A] @ ''SELECT 2;'')
     = [''SELECT 1;'', replicate 65536 (CHR ''x''), ''SELECT 2;'']"
proof -
  have n: "(65536 :: nat) = Suc 65535" by simp
  have x: "CHR 0x0A \<notin> set (replicate 65536 (CHR ''x''))" by simp
  have l3: "rawLines ''SELECT 2;'' = [''SELECT 2;'']" by simp
  have l2: "rawLines (replicate 65536 (CHR ''x'') @ CHR 0x0A # ''SELECT 2;'')
      = [replicate 65536 (CHR ''x''), ''SELECT 2;'']"
    unfolding rawLines_line [OF x] l3 ..
  have s: "CHR 0x0A \<notin> set ''SELECT 1;''" by simp
  have "rawLines (''SELECT 1;'' @ CHR 0x0A # (replicate 65536 (CHR ''x'') @ CHR 0x0A # ''SELECT 2;''))
      = [''SELECT 1;'', replicate 65536 (CHR ''x''), ''SELECT 2;'']"
    unfolding rawLines_line [OF s] l2 ..
  then have r: "rawLines (''SELECT 1;'' @ [CHR 0x0A] @ replicate 65536 (CHR ''x'') @ [CHR 0x0A] @ ''SELECT 2;'')
      = [''SELECT 1;'', replicate 65536 (CHR ''x''), ''SELECT 2;'']"
    by simp
  have sc: "scanLines (''SELECT 1;'' @ [CHR 0x0A] @ replicate 65536 (CHR ''x'') @ [CHR 0x0A] @ ''SELECT 2;'')
      = [''SELECT 1;'']"
    unfolding scanLines_def r by (simp add: MaxScanTokenSize_def dropCR_def)
  have p: "parseLines emptyParsed Up [] [''SELECT 1;'']
      = \<lparr> UpStatements = [''SELECT 1''], DownStatements = [],
           DisableTransactionUp = False, DisableTransactionDown = False \<rparr>"
    by code_simp
  show ?thesis unfolding parseMigration_def sc p r by simp
qed

text \<open>
  The scenario of the specification, and a text with two statements before its first
  directive.
\<close>

lemma parse_example:
  "parseMigration (''-- +migrate Up'' @ [CHR 0x0A] @ ''CREATE TABLE t(x);'' @ [CHR 0x0A]
      @ ''-- +migrate Down'' @ [CHR 0x0A] @ ''DROP TABLE t;'' @ [CHR 0x0A])
   = Inr \<lparr> UpStatements = [''CREATE TABLE t(x)''], DownStatements = [''DROP TABLE t''],
           DisableTransactionUp = False, DisableTransactionDown = False \<rparr>
   \<and> parseMigration (''SELECT 1;'' @ [CHR 0x0A] @ ''SELECT 2'' @ [CHR 0x0A]
      @ ''-- +migrate Down'' @ [CHR 0x0A] @ ''DROP TABLE t;'')
   = Inr \<lparr> UpStatements = [''SELECT 1'', ''SELECT 2''], DownStatements = [''DROP TABLE t''],
           DisableTransactionUp = False, DisableTransactionDown = False \<rparr>"
proof -
  have l1: "scanLines (''-- +migrate Up'' @ [CHR 0x0A] @ ''CREATE TABLE t(x);'' @ [CHR 0x0A]
      @ ''-- +migrate Down'' @ [CHR 0x0A] @ ''DROP TABLE t;'' @ [CHR 0x0A])
      = [''-- +migrate Up'', ''CREATE TABLE t(x);'', ''-- +migrate Down'', ''DROP TABLE t;'']"
    by (simp add: scanLines_def MaxScanTokenSize_def dropCR_def)
  have l2: "scanLines (''SELECT 1;'' @ [CHR 0x0A] @ ''SELECT 2'' @ [CHR 0x0A]
      @ ''-- +migrate Down'' @ [CHR 0x0A] @ ''DROP TABLE t;'')
      = [''SELECT 1;'', ''SELECT 2'', ''-- +migrate Down'', ''DROP TABLE t;'']"
    by (simp add: scanLines_def MaxScanTokenSize_def dropCR_def)
  have p1: "parseLines emptyParsed Up []
        [''-- +migrate Up'', ''CREATE TABLE t(x);'', ''-- +migrate Down'', ''DROP TABLE t;'']
      = \<lparr> UpStatements = [''CREATE TABLE t(x)''], DownStatements = [''DROP TABLE t''],
           DisableTransactionUp = False, DisableTransactionDown = False \<rparr>"
    by code_simp
  have p2: "parseLines emptyParsed Up []
        [''SELECT 1;'', ''SELECT 2'', ''-- +migrate Down'', ''DROP TABLE t;'']
      = \<lparr> UpStatements = [''SELECT 1'', ''SELECT 2''], DownStatements = [''DROP TABLE t''],
           DisableTransactionUp = False, DisableTransactionDown = False \<rparr>"
    by code_simp
  show ?thesis unfolding parseMigration_def l1 l2 p1 p2 by simp
qed

section \<open>The executor on the database\<close>

lemma sql_distinct:
  "selectSQL tbl \<noteq> createTableSQL tbl" "insertSQL tbl \<noteq> createTableSQL tbl"
  "deleteSQL tbl \<noteq> createTableSQL tbl" "insertSQL tbl \<noteq> selectSQL tbl"
  "deleteSQL tbl \<noteq> selectSQL tbl" "deleteSQL tbl \<noteq> insertSQL tbl"
  by (simp_all add: selectSQL_def createTableSQL_def insertSQL_def deleteSQL_def)

lemma Query_d1:
  "DatabaseID client \<noteq> [] \<Longrightarrow>
   Query (d1 tbl exec clock) client q params db
   = d1_DoRequest tbl exec
       \<lparr> req_account = AccountID client, req_token = APIToken client,
         req_database = DatabaseID client, req_sql = q, req_params = params \<rparr> db"
  by (simp add: Query_def QueryDB_def d1_def)

lemma ensureTable_d1_own:
  "DatabaseID client \<noteq> [] \<Longrightarrow>
   ensureTable (d1 (getTableName ms) exec clock) ms client db
   = (None, db\<lparr>ledgerTable := Some (ledgerRows db)\<rparr>)"
  by (simp add: ensureTable_def CreateTable_def CreateTableWithID_def d1_def d1_DoRequest_def
      ledgerRows_def)

lemma ensureTable_not_connected:
  "DatabaseID client = [] \<Longrightarrow> ensureTable env ms client w = (Some NoDatabaseConnected, w)"
  by (simp add: ensureTable_def CreateTable_def)

lemma convertRows_ids:
  "convertRows [''id''] k (map (\<lambda>i. JArray [JString i]) ids) = Inr (map idRow ids)"
  by (induction ids arbitrary: k) (simp_all add: convertRow_def rowFromArray_def idRow_def)

lemma ToRows_ids:
  "ToRows rt (okResponse [''id''] (map (\<lambda>i. JArray [JString i]) ids))
   = Inr \<lparr> rows = map idRow ids, columns = [''id''], current = - 1, lastErr = None \<rparr>"
  by (simp add: ToRows_def okResponse_def extractColumns_def List.map_filter_def convertRows_ids
      NewRows_def)

lemma StructScan_idRow:
  assumes "0 \<le> current r" "current r < int (length ids)" "rows r = map idRow ids"
  shows "StructScan rt r (PtrTo recordZero)
    = (None, PtrTo (VStruct [\<lparr> fname = ''Id'', ftag = ''id'', fexported = True,
                               fcell = PString (ids ! nat (current r)) \<rparr>]))"
  using assms by (simp add: StructScan_def recordZero_def idRow_def)

lemma readIds_idRows:
  assumes "rows r = map idRow ids" and "- 1 \<le> current r"
  shows "readIds rt r acc = Inr (acc @ drop (nat (current r + 1)) ids)"
  using assms
proof (induction "length ids - nat (current r + 1)" arbitrary: r acc)
  case 0
  then have "\<not> current r + 1 < int (length (rows r))" by simp
  then have "readIds rt r acc = Inr acc"
    by (subst readIds.simps) (simp add: Next_def)
  moreover from 0 have "drop (nat (current r + 1)) ids = []" by simp
  ultimately show ?case by simp
next
  case (Suc n)
  let ?r' = "r\<lparr>current := current r + 1\<rparr>"
  from Suc.hyps(2) Suc.prems have lt: "current r + 1 < int (length ids)" by linarith
  with Suc.prems have nx: "Next r = (True, ?r')" by (simp add: Next_def)
  have sc: "StructScan rt ?r' (PtrTo recordZero)
    = (None, PtrTo (VStruct [\<lparr> fname = ''Id'', ftag = ''id'', fexported = True,
                               fcell = PString (ids ! nat (current r + 1)) \<rparr>]))"
    using StructScan_idRow [of ?r' ids rt] Suc.prems lt by simp
  have "n = length ids - nat (current ?r' + 1)" using Suc.hyps(2) Suc.prems(2) by simp
  from Suc.hyps(1) [OF this, of "acc @ [ids ! nat (current r + 1)]"] Suc.prems
  have IH: "readIds rt ?r' (acc @ [ids ! nat (current r + 1)])
      = Inr ((acc @ [ids ! nat (current r + 1)]) @ drop (nat (current r + 1 + 1)) ids)" by simp
  have "readIds rt r acc = readIds rt ?r' (acc @ [ids ! nat (current r + 1)])"
    by (subst readIds.simps) (simp add: nx sc recordId_def)
  also note IH
  also have "(acc @ [ids ! nat (current r + 1)]) @ drop (nat (current r + 1 + 1)) ids
      = acc @ drop (nat (current r + 1)) ids"
  proof -
    from lt Suc.prems(2) have "nat (current r + 1) < length ids" by simp
    moreover from Suc.prems(2) have "nat (current r + 1 + 1) = Suc (nat (current r + 1))" by simp
    ultimately show ?thesis by (simp add: Cons_nth_drop_Suc)
  qed
  finally show ?case .
qed

lemma getAppliedMigrations_d1:
  assumes "DatabaseID client \<noteq> []" and "ledgerTable db = Some l"
  shows "getAppliedMigrations rt (d1 (getTableName ms) exec clock) ms client db
         = (Inr (sort (map fst l)), db)"
proof -
  have "Query (d1 (getTableName ms) exec clock) client (selectSQL (getTableName ms)) None db
      = (Inr (okResponse [''id''] (map (\<lambda>i. JArray [JString i]) (sort (map fst l)))), db)"
    using assms by (simp add: Query_d1 d1_DoRequest_def sql_distinct)
  moreover have "readIds rt \<lparr> rows = map idRow (sort (map fst l)), columns = [''id''],
        current = - 1, lastErr = None \<rparr> [] = Inr (sort (map fst l))"
    using readIds_idRows [of "\<lparr> rows = map idRow (sort (map fst l)), columns = [''id''],
        current = - 1, lastErr = None \<rparr>" "sort (map fst l)" rt "[]"] by simp
  ultimately show ?thesis by (simp add: getAppliedMigrations_def ToRows_ids)
qed

lemma ExecMax_d1:
  assumes "DatabaseID client \<noteq> []" and "FindMigrations src = Inr known"
  shows "ExecMax rt (d1 (getTableName ms) exec clock) ms client src dir max_n db
         = applyAll (d1 (getTableName ms) exec clock) ms client dir
             (planMigrations ms known (sort (map fst (ledgerRows db))) dir max_n) 0
             (db\<lparr>ledgerTable := Some (ledgerRows db)\<rparr>)"
  using assms
  by (simp add: ExecMax_def ensureTable_d1_own
      getAppliedMigrations_d1 [of client "db\<lparr>ledgerTable := Some (ledgerRows db)\<rparr>" "ledgerRows db"])



text \<open>
  Claim C1, as stated: the Executor's downward plan lists the applied migrations in
  reversed order of application. It fails for the ledger of the specification's example,
  applied in the order \<open>1_a\<close>, \<open>3_c\<close>, \<open>2_b\<close>: the run reverts \<open>3_c\<close> first, then \<open>2_b\<close>, then
  \<open>1_a\<close>, not \<open>2_b\<close>, \<open>3_c\<close>, \<open>1_a\<close>, since the ledger is read with \<open>ORDER BY id ASC\<close>.
\<close>

theorem downward_run_in_id_order:
  "ExecMax exampleRuntime (d1 ''d1_migrations'' logStatements clock0) \<lparr> TableName = [] \<rparr> client0
     (MemoryMigrationSource [tableMigration ''1_a'', tableMigration ''2_b'', tableMigration ''3_c''])
     Down 0
     \<lparr> ledgerTable = Some [(''1_a'', ''t1''), (''3_c'', ''t2''), (''2_b'', ''t3'')], userData = [] \<rparr>
   = ((3, None),
      \<lparr> ledgerTable = Some [],
        userData = [''DROP TABLE t_3_c'', ''DROP TABLE t_2_b'', ''DROP TABLE t_1_a''] \<rparr>)"
  by code_simp

lemma fold_appliedMap:
  "fold (\<lambda>ident mp. mp(ident \<mapsto> True)) xs mp0 i = (if i \<in> set xs then Some True else mp0 i)"
  by (induction xs arbitrary: mp0) auto

lemma appliedMap_eq: "appliedMap applied i = (if i \<in> set applied then Some True else None)"
  by (simp add: appliedMap_def fold_appliedMap)

lemma find_snoc:
  "find P (xs @ [x]) = (case find P xs of None \<Rightarrow> (if P x then Some x else None) | Some y \<Rightarrow> Some y)"
  by (induction xs) simp_all

lemma fold_migrationMap:
  "fold (\<lambda>m mp. mp(Id_m m \<mapsto> m)) xs mp0 i
   = (case find (\<lambda>m. Id_m m = i) (rev xs) of None \<Rightarrow> mp0 i | Some m \<Rightarrow> Some m)"
proof (induction xs arbitrary: mp0)
  case Nil
  show ?case by simp
next
  case (Cons x xs)
  have "fold (\<lambda>m mp. mp(Id_m m \<mapsto> m)) (x # xs) mp0 i
      = fold (\<lambda>m mp. mp(Id_m m \<mapsto> m)) xs (mp0(Id_m x \<mapsto> x)) i"
    by (simp only: fold_simps comp_apply)
  also have "\<dots> = (case find (\<lambda>m. Id_m m = i) (rev xs) of
        None \<Rightarrow> (mp0(Id_m x \<mapsto> x)) i | Some m \<Rightarrow> Some m)"
    by (rule Cons.IH)
  also have "\<dots> = (case find (\<lambda>m. Id_m m = i) (rev (x # xs)) of
        None \<Rightarrow> mp0 i | Some m \<Rightarrow> Some m)"
    by (cases "find (\<lambda>m. Id_m m = i) (rev xs)") (auto simp: find_snoc)
  finally show ?case .
qed

lemma migrationMap_eq: "migrationMap known i = find (\<lambda>m. Id_m m = i) (rev known)"
  by (simp add: migrationMap_def fold_migrationMap split: option.splits)

lemma migrationMap_Some: "migrationMap known i = Some m \<Longrightarrow> Id_m m = i \<and> m \<in> set known"
proof -
  assume "migrationMap known i = Some m"
  then have f: "find (\<lambda>m. Id_m m = i) (rev known) = Some m" by (simp add: migrationMap_eq)
  then have "Id_m m = i" by (auto simp: find_Some_iff)
  moreover from f obtain k where "k < length (rev known)" "m = rev known ! k"
    by (auto simp: find_Some_iff)
  then have "m \<in> set (rev known)" by (metis nth_mem)
  ultimately show ?thesis by simp
qed

lemma migrationMap_None: "migrationMap known i = None \<longleftrightarrow> i \<notin> Id_m ` set known"
  by (auto simp: migrationMap_eq find_None_iff)

lemma plan_up: "planMigrations ms known applied Up 0 = filter (\<lambda>m. Id_m m \<notin> set applied) known"
  by (simp add: planMigrations_def appliedMap_eq)

lemma plan_down_ids:
  "map Id_m (planMigrations ms known applied Down 0)
   = filter (\<lambda>i. i \<in> Id_m ` set known) (rev applied)"
proof -
  have "map Id_m (List.map_filter (migrationMap known) xs) = filter (\<lambda>i. i \<in> Id_m ` set known) xs" for xs
  proof (induction xs)
    case Nil
    show ?case by simp
  next
    case (Cons x xs)
    show ?case
    proof (cases "migrationMap known x")
      case None
      then show ?thesis using Cons
        by (simp add: migrationMap_None [symmetric])
    next
      case (Some m)
      moreover from Some have "Id_m m = x" "x \<in> Id_m ` set known"
        using migrationMap_Some [OF Some] by auto
      ultimately show ?thesis using Cons by simp
    qed
  qed
  then show ?thesis by (simp add: planMigrations_def)
qed


text \<open>
  \<open>Less\<close> looks at the ids alone. On ids where text order agrees with it, the sort by
  \<open>Less\<close> is the sort by text order, so the ids as the ledger query returns them are the
  ids in the sort order of the Executor, whatever the order of the rows.
\<close>

lemma isNumeric_Id: "isNumeric (migration (Id_m m)) = isNumeric m"
  by (simp add: isNumeric_def NumberPrefixMatches_def migration_def)

lemma VersionInt_Id: "VersionInt (migration (Id_m m)) = VersionInt m"
  by (simp add: VersionInt_def NumberPrefixMatches_def migration_def)

lemma Less_Id: "Less m other = Less (migration (Id_m m)) (migration (Id_m other))"
  unfolding Less_def isNumeric_Id VersionInt_Id by (simp add: migration_def)

lemma textOrderAgrees_subset:
  "textOrderAgrees ids \<Longrightarrow> set ids' \<subseteq> set ids \<Longrightarrow> textOrderAgrees ids'"
  by (auto simp: textOrderAgrees_def)

lemma insertById_insort:
  "textOrderAgrees (x # ys) \<Longrightarrow>
   insertById (migration x) (map migration ys) = map migration (insort x ys)"
proof (induction ys)
  case Nil
  show ?case by simp
next
  case (Cons y ys)
  from Cons.prems have l: "Less (migration y) (migration x) = (y < x)"
    by (simp add: textOrderAgrees_def)
  from Cons.prems have "textOrderAgrees (x # ys)"
    by (rule textOrderAgrees_subset) auto
  then have "insertById (migration x) (map migration ys) = map migration (insort x ys)"
    by (rule Cons.IH)
  with l show ?case by (auto simp: not_less)
qed

lemma sortById_sort:
  "textOrderAgrees ids \<Longrightarrow> sortById (map migration ids) = map migration (sort ids)"
proof (induction ids)
  case Nil
  show ?case by (simp add: sortById_def)
next
  case (Cons x xs)
  from Cons.prems have "textOrderAgrees xs"
    by (rule textOrderAgrees_subset) auto
  then have ih: "sortById (map migration xs) = map migration (sort xs)"
    by (rule Cons.IH)
  from Cons.prems have a: "textOrderAgrees (x # sort xs)"
    by (rule textOrderAgrees_subset) auto
  have "sortById (map migration (x # xs)) = insertById (migration x) (sortById (map migration xs))"
    by (simp add: sortById_def)
  also have "\<dots> = map migration (insort x (sort xs))"
    unfolding ih by (rule insertById_insort [OF a])
  finally show ?case by simp
qed

lemma Id_sortById:
  "textOrderAgrees ids \<Longrightarrow> map Id_m (sortById (map migration ids)) = sort ids"
  by (simp add: sortById_sort comp_def migration_def)

lemma ascending_rev_plan_down:
  assumes "textOrderAgrees ids"
  shows "ascending (rev (planMigrations ms known (sort ids) Down 0))"
proof -
  let ?plan = "planMigrations ms known (sort ids) Down 0"
  have ids: "map Id_m (rev ?plan) = filter (\<lambda>i. i \<in> Id_m ` set known) (sort ids)"
    by (simp add: rev_map [symmetric] plan_down_ids rev_filter)
  then have "sorted (map Id_m (rev ?plan))"
    by (simp add: sorted_filter [where f = "\<lambda>x. x", simplified])
  then have s: "sorted_wrt (\<lambda>a b. Id_m a \<le> Id_m b) (rev ?plan)"
    by (simp add: sorted_wrt_map)
  have sub: "Id_m ` set (rev ?plan) \<subseteq> set ids"
    using ids by (metis (no_types, lifting) filter_is_subset set_map set_sort)
  have "\<not> Less b a" if "a \<in> set (rev ?plan)" "b \<in> set (rev ?plan)" "Id_m a \<le> Id_m b" for a b
  proof -
    from sub that have "Id_m a \<in> set ids" "Id_m b \<in> set ids" by auto
    with assms have "Less (migration (Id_m b)) (migration (Id_m a)) = (Id_m b < Id_m a)"
      by (simp add: textOrderAgrees_def)
    then have "Less b a = (Id_m b < Id_m a)" by (subst Less_Id)
    with that(3) show ?thesis by (simp add: not_less)
  qed
  with s show ?thesis
    unfolding ascending_def by (rule sorted_wrt_mono_rel [rotated])
qed


text \<open>
  Claim C1, amended: for every ledger on whose ids text order agrees with \<open>Less\<close>, the
  Executor's downward plan lists the applied ids that have a matching known migration
  in descending sort order, the reverse of the order \<open>sortById\<close> gives them, whatever the
  order of application: the Executor plans from the ids as the ledger query returns
  them, and the planner walks the sequence it is given backwards. (Given the applied
  sequence \<open>1_a\<close>, \<open>3_c\<close>, \<open>2_b\<close> the planner plans \<open>2_b\<close>, \<open>3_c\<close>, \<open>1_a\<close>; from the ledger with
  these rows the Executor plans \<open>3_c\<close>, \<open>2_b\<close>, \<open>1_a\<close>.)
\<close>

theorem downward_plan_reverse_sort_order:
  assumes "DatabaseID client \<noteq> []" and "FindMigrations src = Inr known"
    and "textOrderAgrees (map fst (ledgerRows db))"
  shows "ExecMax rt (d1 (getTableName ms) exec clock) ms client src Down max_n db
         = applyAll (d1 (getTableName ms) exec clock) ms client Down
             (planMigrations ms known
                (map Id_m (sortById (map migration (map fst (ledgerRows db))))) Down max_n) 0
             (db\<lparr>ledgerTable := Some (ledgerRows db)\<rparr>)
     \<and> map Id_m (sortById (map migration (map fst (ledgerRows db))))
         = sort (map fst (ledgerRows db))
     \<and> map Id_m (planMigrations ms known
           (map Id_m (sortById (map migration (map fst (ledgerRows db))))) Down 0)
         = filter (\<lambda>i. i \<in> Id_m ` set known)
             (rev (map Id_m (sortById (map migration (map fst (ledgerRows db))))))
     \<and> ascending (rev (planMigrations ms known
           (map Id_m (sortById (map migration (map fst (ledgerRows db))))) Down 0))
     \<and> map Id_m (planMigrations ms known applied Down 0)
         = filter (\<lambda>i. i \<in> Id_m ` set known) (rev applied)"
proof -
  have s: "map Id_m (sortById (map migration (map fst (ledgerRows db)))) = sort (map fst (ledgerRows db))"
    by (rule Id_sortById [OF assms(3)])
  show ?thesis
    unfolding s
    using ExecMax_d1 [OF assms(1,2)] ascending_rev_plan_down [OF assms(3)]
    by (simp add: plan_down_ids)
qed

theorem downward_plan_reverse_sort_order_witness:
  "DatabaseID client0 \<noteq> []
   \<and> FindMigrations (MemoryMigrationSource [tableMigration ''3_c'', tableMigration ''1_a'', tableMigration ''2_b''])
       = Inr [tableMigration ''1_a'', tableMigration ''2_b'', tableMigration ''3_c'']
   \<and> textOrderAgrees (map fst (ledgerRows
         \<lparr> ledgerTable = Some [(''1_a'', ''t1''), (''3_c'', ''t2''), (''2_b'', ''t3'')], userData = [] :: string list \<rparr>))
   \<and> map Id_m (planMigrations \<lparr> TableName = [] \<rparr>
         [tableMigration ''1_a'', tableMigration ''2_b'', tableMigration ''3_c'']
         (map Id_m (sortById (map migration (map fst (ledgerRows
            \<lparr> ledgerTable = Some [(''1_a'', ''t1''), (''3_c'', ''t2''), (''2_b'', ''t3'')], userData = [] :: string list \<rparr>)))))
         Down 0)
       = [''3_c'', ''2_b'', ''1_a'']
   \<and> map Id_m (planMigrations \<lparr> TableName = [] \<rparr>
         [tableMigration ''1_a'', tableMigration ''2_b'', tableMigration ''3_c'']
         [''1_a'', ''3_c'', ''2_b''] Down 0)
       = [''2_b'', ''3_c'', ''1_a'']"
proof -
  have c: "DatabaseID client0 \<noteq> []" by (simp add: client0_def)
  have f: "FindMigrations (MemoryMigrationSource [tableMigration ''3_c'', tableMigration ''1_a'', tableMigration ''2_b''])
       = Inr [tableMigration ''1_a'', tableMigration ''2_b'', tableMigration ''3_c'']"
    by code_simp
  have a: "textOrderAgrees (map fst (ledgerRows
         \<lparr> ledgerTable = Some [(''1_a'', ''t1''), (''3_c'', ''t2''), (''2_b'', ''t3'')], userData = [] :: string list \<rparr>))"
    by code_simp
  have s: "filter (\<lambda>i. i \<in> Id_m ` set [tableMigration ''1_a'', tableMigration ''2_b'', tableMigration ''3_c''])
        (rev (map Id_m (sortById (map migration (map fst (ledgerRows
            \<lparr> ledgerTable = Some [(''1_a'', ''t1''), (''3_c'', ''t2''), (''2_b'', ''t3'')], userData = [] :: string list \<rparr>))))))
      = [''3_c'', ''2_b'', ''1_a'']"
    by code_simp
  have t: "filter (\<lambda>i. i \<in> Id_m ` set [tableMigration ''1_a'', tableMigration ''2_b'', tableMigration ''3_c''])
        (rev [''1_a'', ''3_c'', ''2_b'']) = [''2_b'', ''3_c'', ''1_a'']"
    by code_simp
  from downward_plan_reverse_sort_order [OF c f a, of exampleRuntime "\<lparr> TableName = [] \<rparr>" logStatements clock0 0
      "[''1_a'', ''3_c'', ''2_b'']"]
  show ?thesis unfolding s t using c f a by blast
qed


text \<open>
  Where text order and \<open>Less\<close> differ, the run follows text order, not the sort order of
  the Executor: after \<open>2_y\<close> and then \<open>10_x\<close> were applied, which is their sort order, a
  downward run of one migration reverts \<open>2_y\<close> and leaves \<open>10_x\<close> applied.
\<close>

lemma down_by_text_order_of_id:
  "ExecMax exampleRuntime (d1 ''d1_migrations'' logStatements clock0) \<lparr> TableName = [] \<rparr> client0
     (MemoryMigrationSource [tableMigration ''2_y'', tableMigration ''10_x''])
     Down 1
     \<lparr> ledgerTable = Some [(''2_y'', ''t1''), (''10_x'', ''t2'')], userData = [] \<rparr>
   = ((1, None),
      \<lparr> ledgerTable = Some [(''10_x'', ''t2'')], userData = [''DROP TABLE t_2_y''] \<rparr>)
   \<and> FindMigrations (MemoryMigrationSource [tableMigration ''2_y'', tableMigration ''10_x''])
       = Inr [tableMigration ''2_y'', tableMigration ''10_x'']
   \<and> \<not> textOrderAgrees [''2_y'', ''10_x'']"
  by code_simp

lemma d1_DoRequest_no_params:
  assumes "d1_DoRequest tbl exec rq db = (res, db')" and "req_params rq = None"
    and "ledgerTable db = Some l"
  shows "ledgerTable db' = Some l"
  using assms by (auto simp: d1_DoRequest_def split: if_splits prod.splits)

lemma runQueries_d1_ledger:
  "runQueries (d1 tbl exec clock) client qs db = (e, db') \<Longrightarrow> ledgerTable db = Some l \<Longrightarrow>
   ledgerTable db' = Some l"
proof (induction qs arbitrary: db)
  case Nil
  then show ?case by simp
next
  case (Cons q qs)
  obtain r db1 where q: "Query (d1 tbl exec clock) client q None db = (r, db1)"
    by (cases "Query (d1 tbl exec clock) client q None db")
  have l1: "ledgerTable db1 = Some l"
  proof (cases "DatabaseID client = []")
    case True
    with q Cons.prems(2) show ?thesis by (simp add: Query_def)
  next
    case False
    with q have "d1_DoRequest tbl exec
       \<lparr> req_account = AccountID client, req_token = APIToken client,
         req_database = DatabaseID client, req_sql = q, req_params = None \<rparr> db = (r, db1)"
      by (simp add: Query_d1)
    from d1_DoRequest_no_params [OF this _ Cons.prems(2)] show ?thesis by simp
  qed
  show ?case
  proof (cases r)
    case (Inl err)
    with q Cons.prems(1) have "db' = db1" by simp
    with l1 show ?thesis by simp
  next
    case (Inr res)
    with q Cons.prems(1) have "runQueries (d1 tbl exec clock) client qs db1 = (e, db')" by simp
    from Cons.IH [OF this l1] show ?thesis .
  qed
qed

lemma applyMigration_d1_Up:
  assumes "applyMigration (d1 (getTableName ms) exec clock) ms client m Up db = (None, db')"
    and "ledgerTable db = Some l"
  shows "\<exists>l'. ledgerTable db' = Some l' \<and> fst ` set l \<subseteq> fst ` set l' \<and> Id_m m \<in> fst ` set l'"
proof -
  let ?D = "d1 (getTableName ms) exec clock"
  obtain e db1 where rq: "runQueries ?D client (Up_m m) db = (e, db1)"
    by (cases "runQueries ?D client (Up_m m) db")
  with assms(1) have e: "e = None"
    by (cases e) (simp_all add: applyMigration_def)
  from runQueries_d1_ledger [OF rq assms(2)] have l1: "ledgerTable db1 = Some l" .
  obtain r db2 where ins: "Query ?D client (insertSQL (getTableName ms)) (Some [Id_m m, Now ?D db1]) db1 = (r, db2)"
    by (cases "Query ?D client (insertSQL (getTableName ms)) (Some [Id_m m, Now ?D db1]) db1")
  with rq e assms(1) have r: "\<exists>res. r = Inr res" and db': "db' = db2"
    by (cases r; simp add: applyMigration_def)+
  from r ins have conn: "DatabaseID client \<noteq> []"
    by (auto simp: Query_def split: if_splits)
  from ins conn l1 have "ledgerTable db2 = Some l \<and> Id_m m \<in> fst ` set l
      \<or> ledgerTable db2 = Some (l @ [(Id_m m, Now ?D db1)])"
    by (auto simp: Query_d1 d1_DoRequest_def sql_distinct split: if_splits)
  with db' show ?thesis by auto
qed

lemma applyAll_d1_Up:
  "applyAll (d1 (getTableName ms) exec clock) ms client Up plan c db = ((n, None), db') \<Longrightarrow>
   ledgerTable db = Some l \<Longrightarrow>
   \<exists>l'. ledgerTable db' = Some l' \<and> fst ` set l \<subseteq> fst ` set l' \<and> Id_m ` set plan \<subseteq> fst ` set l'"
proof (induction plan arbitrary: c db l)
  case Nil
  then show ?case by auto
next
  case (Cons m plan)
  let ?D = "d1 (getTableName ms) exec clock"
  obtain e db1 where am: "applyMigration ?D ms client m Up db = (e, db1)"
    by (cases "applyMigration ?D ms client m Up db")
  with Cons.prems(1) have e: "e = None" by (cases e) simp_all
  with am Cons.prems(1) have rest: "applyAll ?D ms client Up plan (c + 1) db1 = ((n, None), db')"
    by simp
  from applyMigration_d1_Up [OF am [unfolded e] Cons.prems(2)]
  obtain l1 where l1: "ledgerTable db1 = Some l1" "fst ` set l \<subseteq> fst ` set l1" "Id_m m \<in> fst ` set l1"
    by blast
  from Cons.IH [OF rest l1(1)]
  obtain l' where "ledgerTable db' = Some l'" "fst ` set l1 \<subseteq> fst ` set l'" "Id_m ` set plan \<subseteq> fst ` set l'"
    by blast
  with l1 show ?case by auto
qed

lemma ExecMax_not_connected:
  "DatabaseID client = [] \<Longrightarrow>
   ExecMax rt env ms client src dir max_n w = ((0, Some (EnsureTableFailed NoDatabaseConnected)), w)"
  by (simp add: ExecMax_def ensureTable_not_connected)


text \<open>
  Claim C5. The upward plan holds exactly the known migrations whose ids are not in the
  ledger, in the order of the known migrations, which is ascending sort order when the
  source returns them so (as the sources of the repository do, see
  \<open>FindMigrations_memory_ascending\<close>); the Executor plans from the ids of the ledger; and
  after a complete upward run, a second run on the ledger it left applies no migration.
\<close>

theorem upward_plan_idempotent:
  assumes "FindMigrations src = Inr known"
  shows "planMigrations ms known applied Up 0 = filter (\<lambda>m. Id_m m \<notin> set applied) known
     \<and> (ascending known \<longrightarrow> ascending (planMigrations ms known applied Up 0))
     \<and> (DatabaseID client \<noteq> [] \<longrightarrow>
          ExecMax rt (d1 (getTableName ms) exec clock) ms client src Up 0 db
          = applyAll (d1 (getTableName ms) exec clock) ms client Up
              (planMigrations ms known (sort (map fst (ledgerRows db))) Up 0) 0
              (db\<lparr>ledgerTable := Some (ledgerRows db)\<rparr>))
     \<and> (ExecMax rt (d1 (getTableName ms) exec clock) ms client src Up 0 db = ((n, None), db')
          \<longrightarrow> ExecMax rt (d1 (getTableName ms) exec clock) ms client src Up 0 db' = ((0, None), db'))"
proof (intro conjI impI)
  let ?D = "d1 (getTableName ms) exec clock"
  show "planMigrations ms known applied Up 0 = filter (\<lambda>m. Id_m m \<notin> set applied) known"
    by (rule plan_up)
  show "ascending (planMigrations ms known applied Up 0)" if "ascending known"
    using that by (simp add: plan_up ascending_filter)
  show "ExecMax rt ?D ms client src Up 0 db
      = applyAll ?D ms client Up (planMigrations ms known (sort (map fst (ledgerRows db))) Up 0) 0
          (db\<lparr>ledgerTable := Some (ledgerRows db)\<rparr>)" if "DatabaseID client \<noteq> []"
    by (rule ExecMax_d1 [OF that assms])
  show "ExecMax rt ?D ms client src Up 0 db' = ((0, None), db')"
    if run: "ExecMax rt ?D ms client src Up 0 db = ((n, None), db')"
  proof -
    have conn: "DatabaseID client \<noteq> []"
    proof
      assume "DatabaseID client = []"
      from ExecMax_not_connected [OF this, of rt ?D ms src Up 0 db] run show False by simp
    qed
    let ?l = "ledgerRows db"
    let ?plan = "planMigrations ms known (sort (map fst ?l)) Up 0"
    from run ExecMax_d1 [OF conn assms, of rt ms exec clock Up 0 db]
    have "applyAll ?D ms client Up ?plan 0 (db\<lparr>ledgerTable := Some ?l\<rparr>) = ((n, None), db')"
      by simp
    from applyAll_d1_Up [OF this, of ?l]
    obtain l' where l': "ledgerTable db' = Some l'" "fst ` set ?l \<subseteq> fst ` set l'"
      "Id_m ` set ?plan \<subseteq> fst ` set l'" by auto
    have "\<forall>m \<in> set known. Id_m m \<in> fst ` set l'"
    proof
      fix m assume m: "m \<in> set known"
      show "Id_m m \<in> fst ` set l'"
      proof (cases "Id_m m \<in> fst ` set ?l")
        case True
        with l'(2) show ?thesis by blast
      next
        case False
        with m have "m \<in> set ?plan" by (simp add: plan_up)
        with l'(3) show ?thesis by blast
      qed
    qed
    then have empty: "planMigrations ms known (sort (map fst l')) Up 0 = []"
      by (auto simp: plan_up filter_empty_conv)
    from l'(1) have rows: "ledgerRows db' = l'" and same: "db'\<lparr>ledgerTable := Some l'\<rparr> = db'"
      by (simp_all add: ledgerRows_def)
    from ExecMax_d1 [OF conn assms, of rt ms exec clock Up 0 db'] rows same empty
    show ?thesis by simp
  qed
qed


theorem upward_plan_idempotent_witness:
  "FindMigrations (MemoryMigrationSource [tableMigration ''3_c'', tableMigration ''1_a'', tableMigration ''2_b''])
       = Inr [tableMigration ''1_a'', tableMigration ''2_b'', tableMigration ''3_c'']
   \<and> ascending [tableMigration ''1_a'', tableMigration ''2_b'', tableMigration ''3_c'']
   \<and> DatabaseID client0 \<noteq> []
   \<and> planMigrations \<lparr> TableName = [] \<rparr>
        [tableMigration ''1_a'', tableMigration ''2_b'', tableMigration ''3_c''] [''2_b''] Up 0
       = [tableMigration ''1_a'', tableMigration ''3_c'']
   \<and> ExecMax exampleRuntime (d1 (getTableName \<lparr> TableName = [] \<rparr>) logStatements clock0) \<lparr> TableName = [] \<rparr> client0
        (MemoryMigrationSource [tableMigration ''3_c'', tableMigration ''1_a'', tableMigration ''2_b'']) Up 0
        \<lparr> ledgerTable = Some [(''2_b'', ''2025-12-31T00:00:00Z'')], userData = [] \<rparr>
       = ((2, None),
          \<lparr> ledgerTable = Some [(''2_b'', ''2025-12-31T00:00:00Z''), (''1_a'', ''2026-01-01T00:00:00Z''),
                                (''3_c'', ''2026-01-01T00:00:00Z'')],
            userData = [''CREATE TABLE t_1_a'', ''CREATE TABLE t_3_c''] \<rparr>)
   \<and> ExecMax exampleRuntime (d1 (getTableName \<lparr> TableName = [] \<rparr>) logStatements clock0) \<lparr> TableName = [] \<rparr> client0
        (MemoryMigrationSource [tableMigration ''3_c'', tableMigration ''1_a'', tableMigration ''2_b'']) Up 0
        \<lparr> ledgerTable = Some [(''2_b'', ''2025-12-31T00:00:00Z''), (''1_a'', ''2026-01-01T00:00:00Z''),
                                (''3_c'', ''2026-01-01T00:00:00Z'')],
            userData = [''CREATE TABLE t_1_a'', ''CREATE TABLE t_3_c''] \<rparr>
       = ((0, None),
          \<lparr> ledgerTable = Some [(''2_b'', ''2025-12-31T00:00:00Z''), (''1_a'', ''2026-01-01T00:00:00Z''),
                                (''3_c'', ''2026-01-01T00:00:00Z'')],
            userData = [''CREATE TABLE t_1_a'', ''CREATE TABLE t_3_c''] \<rparr>)"
proof -
  let ?src = "MemoryMigrationSource [tableMigration ''3_c'', tableMigration ''1_a'', tableMigration ''2_b'']"
  let ?known = "[tableMigration ''1_a'', tableMigration ''2_b'', tableMigration ''3_c'']"
  have f: "FindMigrations ?src = Inr ?known"
    by code_simp
  have a: "ascending ?known"
    by code_simp
  have c: "DatabaseID client0 \<noteq> []"
    by (simp add: client0_def)
  have run: "ExecMax exampleRuntime (d1 (getTableName \<lparr> TableName = [] \<rparr>) logStatements clock0) \<lparr> TableName = [] \<rparr> client0
        ?src Up 0 \<lparr> ledgerTable = Some [(''2_b'', ''2025-12-31T00:00:00Z'')], userData = [] \<rparr>
       = ((2, None),
          \<lparr> ledgerTable = Some [(''2_b'', ''2025-12-31T00:00:00Z''), (''1_a'', ''2026-01-01T00:00:00Z''),
                                (''3_c'', ''2026-01-01T00:00:00Z'')],
            userData = [''CREATE TABLE t_1_a'', ''CREATE TABLE t_3_c''] \<rparr>)"
    by code_simp
  note inst = upward_plan_idempotent [OF f, of "\<lparr> TableName = [] \<rparr>" "[''2_b'']" client0 exampleRuntime
      logStatements clock0 "\<lparr> ledgerTable = Some [(''2_b'', ''2025-12-31T00:00:00Z'')], userData = [] \<rparr>" 2
      "\<lparr> ledgerTable = Some [(''2_b'', ''2025-12-31T00:00:00Z''), (''1_a'', ''2026-01-01T00:00:00Z''),
                                (''3_c'', ''2026-01-01T00:00:00Z'')],
            userData = [''CREATE TABLE t_1_a'', ''CREATE TABLE t_3_c''] \<rparr>"]
  from inst run have second: "ExecMax exampleRuntime (d1 (getTableName \<lparr> TableName = [] \<rparr>) logStatements clock0) \<lparr> TableName = [] \<rparr> client0
        ?src Up 0
        \<lparr> ledgerTable = Some [(''2_b'', ''2025-12-31T00:00:00Z''), (''1_a'', ''2026-01-01T00:00:00Z''),
                                (''3_c'', ''2026-01-01T00:00:00Z'')],
            userData = [''CREATE TABLE t_1_a'', ''CREATE TABLE t_3_c''] \<rparr>
       = ((0, None),
          \<lparr> ledgerTable = Some [(''2_b'', ''2025-12-31T00:00:00Z''), (''1_a'', ''2026-01-01T00:00:00Z''),
                                (''3_c'', ''2026-01-01T00:00:00Z'')],
            userData = [''CREATE TABLE t_1_a'', ''CREATE TABLE t_3_c''] \<rparr>)"
    by blast
  have p: "filter (\<lambda>m. Id_m m \<notin> set [''2_b'']) ?known = [tableMigration ''1_a'', tableMigration ''3_c'']"
    by code_simp
  from inst p have plan: "planMigrations \<lparr> TableName = [] \<rparr> ?known [''2_b''] Up 0
       = [tableMigration ''1_a'', tableMigration ''3_c'']"
    by simp
  from f a c plan run second show ?thesis by blast
qed


text \<open>
  Claim C6. The Executor runs the statements of each planned migration in order and, at
  the first statement that fails, aborts the run and returns the count of the migrations
  completed so far with an error that wraps the id of the failing migration and the
  cause; nothing is rolled back. This holds when the request of the statement fails,
  that is, when \<open>client.Query\<close> returns an error: the state of the world is then the one
  the failed request left.
\<close>

lemma runQueries_first_failure:
  "runQueries env client qs1 w = (None, w1) \<Longrightarrow> Query env client q None w1 = (Inl err, w2) \<Longrightarrow>
   runQueries env client (qs1 @ q # qs2) w = (Some err, w2)"
proof (induction qs1 arbitrary: w)
  case Nil
  then show ?case by simp
next
  case (Cons a qs1)
  obtain r wa where a: "Query env client a None w = (r, wa)"
    by (cases "Query env client a None w")
  with Cons.prems(1) obtain res where r: "r = Inr res" by (cases r) auto
  with a Cons.prems(1) have "runQueries env client qs1 wa = (None, w1)" by simp
  from Cons.IH [OF this Cons.prems(2)] a r show ?case by simp
qed

lemma applyAll_first_failure:
  "applyAll env ms client dir pre c w = ((k, None), w1) \<Longrightarrow>
   applyMigration env ms client m dir w1 = (Some err, w2) \<Longrightarrow>
   applyAll env ms client dir (pre @ m # post) c w
   = ((c + int (length pre), Some (ApplyMigrationFailed (Id_m m) err)), w2)"
proof (induction pre arbitrary: c w)
  case Nil
  then show ?case by simp
next
  case (Cons a pre)
  obtain e wa where a: "applyMigration env ms client a dir w = (e, wa)"
    by (cases "applyMigration env ms client a dir w")
  with Cons.prems(1) have e: "e = None" by (cases e) auto
  with a Cons.prems(1) have "applyAll env ms client dir pre (c + 1) wa = ((k, None), w1)" by simp
  from Cons.IH [OF this Cons.prems(2)] a e show ?case by simp
qed

lemma run_aborts_on_request_error:
  assumes "applyAll env ms client dir pre 0 w = ((k, None), w1)"
    and "(if dir = Down then Down_m m else Up_m m) = qs1 @ q # qs2"
    and "runQueries env client qs1 w1 = (None, w2)"
    and "Query env client q None w2 = (Inl err, w3)"
  shows "applyAll env ms client dir (pre @ m # post) 0 w
         = ((int (length pre), Some (ApplyMigrationFailed (Id_m m) err)), w3)"
proof -
  from runQueries_first_failure [OF assms(3,4), of qs2] assms(2)
  have "applyMigration env ms client m dir w1 = (Some err, w3)"
    by (simp add: applyMigration_def)
  from applyAll_first_failure [OF assms(1) this, of post] show ?thesis by simp
qed


text \<open>
  It does not hold when the service rejects the statement: a rejected statement is
  answered by an envelope with \<open>success = false\<close> and no error of the transport, and
  \<open>applyMigration\<close> drops the envelope unread. On a database that rejects every statement
  of the two migrations, the run completes both, records both in the ledger and returns
  the count 2 with no error.
\<close>

theorem rejected_statement_goes_unnoticed:
  "ExecMax exampleRuntime (d1 ''d1_migrations'' rejectStatements clock0) \<lparr> TableName = [] \<rparr> client0
     (MemoryMigrationSource [tableMigration ''1_a'', tableMigration ''2_b'']) Up 0
     \<lparr> ledgerTable = None, userData = [] \<rparr>
   = ((2, None),
      \<lparr> ledgerTable = Some [(''1_a'', ''2026-01-01T00:00:00Z''), (''2_b'', ''2026-01-01T00:00:00Z'')],
        userData = [''CREATE TABLE t_1_a'', ''CREATE TABLE t_2_b''] \<rparr>)
   \<and> rejectStatements ''CREATE TABLE t_1_a'' None []
       = (\<lparr> Result = JNull, Success = False, Errors = [\<lparr> Code = 7500, Message = ''syntax error'' \<rparr>] \<rparr>,
          [''CREATE TABLE t_1_a''])"
  by code_simp

end
